theory Spec2Isabelle
  imports Main "HOL-Library.Char_ord" "HOL-Library.List_Lexorder" "HOL-Library.Multiset"
    "HOL-Library.AList"
begin

section \<open>Data model (src/util.ts, lines 14-88)\<close>

text \<open>
  Strings are lists of 8-bit characters: a JavaScript string whose code units are all
  below 256. The string comparison \<open><\<close> of JavaScript (by code unit) is then the
  lexicographic order on \<open>char list\<close>.
\<close>

text \<open>\<open>type VersionUpdate = "major" | "minor" | "patch" | "prerelease"\<close>\<close>

datatype VersionUpdate = Major | Minor | Patch | Prerelease

record Commit =
  subject :: string
  body :: string
  hash :: string

text \<open>\<open>type CommitWithTag = Commit & { tag: string }\<close>\<close>

record CommitWithTag = Commit +
  tag :: string

record WorkspaceModule =
  name :: string
  version :: string
  path :: string

text \<open>
  \<open>VersionBumpSummary = { module, version, commits }\<close>; the fields carry the prefix
  \<open>summary_\<close> because \<open>VersionBump\<close> and \<open>WorkspaceModule\<close> have fields of the same names.
\<close>

record VersionBumpSummary =
  summary_module :: string
  summary_version :: VersionUpdate
  summary_commits :: "CommitWithTag list"

text \<open>
  \<open>VersionUpdateResult = { from, to, diff, path, summary }\<close> (\<open>from\<close> is a keyword of the
  proof language, so the two version fields are \<open>from_version\<close> and \<open>to_version\<close>).
\<close>

record VersionUpdateResult =
  from_version :: string
  to_version :: string
  diff :: VersionUpdate
  result_path :: string
  summary :: VersionBumpSummary

text \<open>
  What the code throws: the \<open>TypeError\<close> of the version parser on a string that is not a
  semantic version, the \<open>Error\<close> "Unexpected manual version update" of \<open>calcVersionDiff\<close>,
  the \<open>TypeError\<close> of reading a property of \<open>undefined\<close>, and the \<open>SyntaxError\<close> of
  \<open>new RegExp\<close> on a source that is not a pattern.
\<close>

datatype error =
    CannotParseVersion
  | UnexpectedManualVersionUpdate
  | TypeErrorUndefined
  | RegExpSyntaxError

section \<open>Semantic versions (the imported library)\<close>

text \<open>
  Modelled from the spec: \<open>parse\<close>, \<open>increment\<close> and \<open>format\<close> are imported by src/util.ts
  from the package \<open>@std/semver\<close>, which is not under src/. The model follows section 4.4,
  step 4 of the specification and the grammar of Semantic Versioning 2.0.0 (with the
  optional leading \<open>v\<close> the library accepts): \<open>major.minor.patch\<close>, then an optional
  \<open>-\<close> and dot-separated prerelease identifiers, then an optional \<open>+\<close> and dot-separated
  build identifiers. A prerelease identifier made of digits is a number.
\<close>

datatype prerelease_id = NumericId nat | TextId string

record SemVer =
  major :: nat
  minor :: nat
  patch :: nat
  prerelease :: "prerelease_id list"
  build :: "string list"

definition is_digit :: "char \<Rightarrow> bool" where
  "is_digit c = (CHR ''0'' \<le> c \<and> c \<le> CHR ''9'')"

definition is_identifier_char :: "char \<Rightarrow> bool" where
  "is_identifier_char c =
     (is_digit c \<or> (CHR ''a'' \<le> c \<and> c \<le> CHR ''z'') \<or> (CHR ''A'' \<le> c \<and> c \<le> CHR ''Z'')
      \<or> c = CHR ''-'')"

definition nat_of_digits :: "string \<Rightarrow> nat" where
  "nat_of_digits s = foldl (\<lambda>n c. 10 * n + (of_char c - 48)) 0 s"

text \<open>\<open>0|[1-9]\d*\<close>\<close>

definition is_numeric_identifier :: "string \<Rightarrow> bool" where
  "is_numeric_identifier s = (s \<noteq> [] \<and> list_all is_digit s \<and> (s = ''0'' \<or> hd s \<noteq> CHR ''0''))"

definition parseNumber :: "string \<Rightarrow> nat option" where
  "parseNumber s = (if is_numeric_identifier s then Some (nat_of_digits s) else None)"

definition parsePrereleaseId :: "string \<Rightarrow> prerelease_id option" where
  "parsePrereleaseId s =
     (if is_numeric_identifier s then Some (NumericId (nat_of_digits s))
      else if s \<noteq> [] \<and> list_all is_identifier_char s \<and> \<not> list_all is_digit s then Some (TextId s)
      else None)"

definition parseBuildId :: "string \<Rightarrow> string option" where
  "parseBuildId s = (if s \<noteq> [] \<and> list_all is_identifier_char s then Some s else None)"

text \<open>\<open>s.split(d)\<close> for a one-character separator: always at least one piece.\<close>

fun split_at :: "char \<Rightarrow> string \<Rightarrow> string list" where
  "split_at d [] = [[]]"
| "split_at d (c # cs) =
     (if c = d then [] # split_at d cs
      else (case split_at d cs of [] \<Rightarrow> [[c]] | p # ps \<Rightarrow> (c # p) # ps))"

text \<open>
  Modelled from the spec: \<open>parse\<close> of the imported package \<open>@std/semver\<close> (not under src/),
  after the grammar of Semantic Versioning 2.0.0. A string that is not a version is the
  \<open>TypeError\<close> of the library.
\<close>

definition parseSemVer :: "string \<Rightarrow> error + SemVer" where
  "parseSemVer value =
     (let s = (case value of [] \<Rightarrow> [] | c # cs \<Rightarrow> if c = CHR ''v'' then cs else value);
          main = takeWhile (\<lambda>c. c \<noteq> CHR ''+'') s;
          build_part = dropWhile (\<lambda>c. c \<noteq> CHR ''+'') s;
          core = takeWhile (\<lambda>c. c \<noteq> CHR ''-'') main;
          pre_part = dropWhile (\<lambda>c. c \<noteq> CHR ''-'') main
      in case those (map parseNumber (split_at CHR ''.'' core)) of
           Some [ma, mi, pa] \<Rightarrow>
             (case (if pre_part = [] then Some []
                    else those (map parsePrereleaseId (split_at CHR ''.'' (tl pre_part)))) of
                None \<Rightarrow> Inl CannotParseVersion
              | Some pre \<Rightarrow>
                 (case (if build_part = [] then Some []
                        else those (map parseBuildId (split_at CHR ''.'' (tl build_part)))) of
                    None \<Rightarrow> Inl CannotParseVersion
                  | Some b \<Rightarrow>
                      Inr \<lparr>major = ma, minor = mi, patch = pa, prerelease = pre, build = b\<rparr>))
         | _ \<Rightarrow> Inl CannotParseVersion)"

fun digits_of_nat :: "nat \<Rightarrow> string" where
  "digits_of_nat n =
     (if n < 10 then [char_of (48 + n)]
      else digits_of_nat (n div 10) @ [char_of (48 + n mod 10)])"

declare digits_of_nat.simps [simp del]

fun join_dot :: "string list \<Rightarrow> string" where
  "join_dot [] = []"
| "join_dot [x] = x"
| "join_dot (x # y # ys) = x @ ''.'' @ join_dot (y # ys)"

fun format_prerelease_id :: "prerelease_id \<Rightarrow> string" where
  "format_prerelease_id (NumericId n) = digits_of_nat n"
| "format_prerelease_id (TextId s) = s"

text \<open>
  Modelled from the spec: \<open>format\<close> of the imported package \<open>@std/semver\<close> (not under src/),
  the inverse of the parser.
\<close>

definition formatSemver :: "SemVer \<Rightarrow> string" where
  "formatSemver v =
     digits_of_nat (major v) @ ''.'' @ digits_of_nat (minor v) @ ''.'' @ digits_of_nat (patch v)
     @ (if prerelease v = [] then [] else ''-'' @ join_dot (map format_prerelease_id (prerelease v)))
     @ (if build v = [] then [] else ''+'' @ join_dot (build v))"

text \<open>
  The prerelease counter is the rightmost numeric identifier; where there is none, the
  counter starts at \<open>0\<close>, appended. \<open>bump_first_numeric\<close> runs on the reversed list.
\<close>

fun bump_first_numeric :: "prerelease_id list \<Rightarrow> prerelease_id list option" where
  "bump_first_numeric [] = None"
| "bump_first_numeric (NumericId n # xs) = Some (NumericId (n + 1) # xs)"
| "bump_first_numeric (TextId s # xs) = map_option ((#) (TextId s)) (bump_first_numeric xs)"

definition bumpPrerelease :: "prerelease_id list \<Rightarrow> prerelease_id list" where
  "bumpPrerelease ids =
     (case bump_first_numeric (rev ids) of
        Some r \<Rightarrow> rev r
      | None \<Rightarrow> ids @ [NumericId 0])"

text \<open>
  Modelled from the spec: \<open>increment\<close> of the imported package \<open>@std/semver\<close> (not under
  src/), after section 4.4, step 4: major resets minor and patch and clears the prerelease; minor
  resets patch and clears the prerelease; patch increments patch and clears the
  prerelease; prerelease increments the prerelease counter (on a version that has no
  prerelease, the library first moves to the next patch). The build identifiers stay.
\<close>

fun increment :: "SemVer \<Rightarrow> VersionUpdate \<Rightarrow> SemVer" where
  "increment v Major = v\<lparr>major := major v + 1, minor := 0, patch := 0, prerelease := []\<rparr>"
| "increment v Minor = v\<lparr>minor := minor v + 1, patch := 0, prerelease := []\<rparr>"
| "increment v Patch = v\<lparr>patch := patch v + 1, prerelease := []\<rparr>"
| "increment v Prerelease =
     v\<lparr>patch := (if prerelease v = [] then patch v + 1 else patch v),
       prerelease := bumpPrerelease (prerelease v)\<rparr>"

section \<open>The version reconciler (src/util.ts, lines 286-403)\<close>

text \<open>\<open>version.prerelease !== undefined && version.prerelease.length > 0\<close>\<close>

definition hasPrerelease :: "SemVer \<Rightarrow> bool" where
  "hasPrerelease v = (length (prerelease v) > 0)"

definition calcVersionDiff :: "string \<Rightarrow> string \<Rightarrow> error + VersionUpdate" where
  "calcVersionDiff newVersionStr oldVersionStr =
     (case parseSemVer newVersionStr of
        Inl e \<Rightarrow> Inl e
      | Inr newVersion \<Rightarrow>
     (case parseSemVer oldVersionStr of
        Inl e \<Rightarrow> Inl e
      | Inr oldVersion \<Rightarrow>
          if hasPrerelease newVersion then Inr Prerelease
          else if major newVersion \<noteq> major oldVersion then Inr Major
          else if minor newVersion \<noteq> minor oldVersion then Inr Minor
          else if patch newVersion \<noteq> patch oldVersion then Inr Patch
          else if hasPrerelease oldVersion \<and> \<not> hasPrerelease newVersion \<and>
                  major newVersion = major oldVersion \<and>
                  minor newVersion = minor oldVersion \<and>
                  patch newVersion = patch oldVersion
          then (if patch newVersion \<noteq> 0 then Inr Patch
                else if minor newVersion \<noteq> 0 then Inr Minor
                else if major newVersion \<noteq> 0 then Inr Major
                else Inl UnexpectedManualVersionUpdate)
          else Inl UnexpectedManualVersionUpdate))"

text \<open>
  \<open>applyVersionBump(summary, module, oldModule, denoJson, dryRun)\<close> returns the pair of the
  text of the import map and the \<open>VersionUpdateResult\<close> (with the summary as the code
  leaves it, \<open>summary.version = diff\<close>). The first two branches return \<open>denoJson\<close> as they
  got it. The third branch rewrites it with
  \<^verbatim>\<open>denoJson.replace(new RegExp(`${module.name}@([^~]?)${currentVersionStr}`, "g"),
                   `${module.name}@$1${newVersionStr}`)\<close>.
  The pattern is built from the name of the module when the program runs, and the engine
  that compiles and applies it belongs to the language, not to the repository: it is
  the parameter \<open>regexp_replace\<close>, where \<open>regexp_replace source template text\<close> is
  \<open>text.replace(new RegExp(source, "g"), template)\<close>, and \<open>None\<close> when \<open>new RegExp\<close> throws
  its \<open>SyntaxError\<close>, as it does for the source \<open>foo(@([^~]?)1.2.3\<close> of a module named
  \<open>foo(\<close>. The third branch also stores the new version in \<open>module.version\<close> (the result
  carries it as \<open>to\<close>) and, unless \<open>dryRun\<close> is set, writes the file of the module; the
  write is output of the surrounding system and is not modelled.
\<close>

definition applyVersionBump ::
  "(string \<Rightarrow> string \<Rightarrow> string \<Rightarrow> string option) \<Rightarrow> VersionBumpSummary \<Rightarrow> WorkspaceModule
     \<Rightarrow> WorkspaceModule option \<Rightarrow> string \<Rightarrow> error + string \<times> VersionUpdateResult"
where
  "applyVersionBump regexp_replace summ module oldModule denoJson =
     (case oldModule of
        None \<Rightarrow>
          \<comment> \<open>The module is newly added\<close>
          (case calcVersionDiff (version module) ''0.0.0'' of
             Inl e \<Rightarrow> Inl e
           | Inr d \<Rightarrow>
               Inr (denoJson,
                    \<lparr>from_version = ''0.0.0'', to_version = version module, diff = d,
                     result_path = path module, summary = summ\<lparr>summary_version := d\<rparr>\<rparr>))
      | Some old \<Rightarrow>
          if version old \<noteq> version module then
            \<comment> \<open>The version is manually updated\<close>
            (case calcVersionDiff (version module) (version old) of
               Inl e \<Rightarrow> Inl e
             | Inr d \<Rightarrow>
                 Inr (denoJson,
                      \<lparr>from_version = version old, to_version = version module, diff = d,
                       result_path = path module, summary = summ\<lparr>summary_version := d\<rparr>\<rparr>))
          else
            (case parseSemVer (version module) of
               Inl e \<Rightarrow> Inl e
             | Inr currentVersion \<Rightarrow>
                 (let currentVersionStr = version module;
                      d0 = summary_version summ;
                      d = (if length (prerelease currentVersion) > 0 then Prerelease
                           else if major currentVersion = 0 then
                             (if d0 = Major then Minor else if d0 = Minor then Patch else d0)
                           else d0);
                      newVersionStr = formatSemver (increment currentVersion d)
                  in case regexp_replace (name module @ ''@([^~]?)'' @ currentVersionStr)
                            (name module @ ''@$1'' @ newVersionStr) denoJson of
                       None \<Rightarrow> Inl RegExpSyntaxError
                     | Some denoJson' \<Rightarrow>
                         Inr (denoJson',
                              \<lparr>from_version = currentVersionStr, to_version = newVersionStr,
                               diff = d, result_path = path module,
                               summary = summ\<lparr>summary_version := d\<rparr>\<rparr>))))"

section \<open>Regular expressions\<close>

text \<open>
  The regular expressions of the source, as terms. A character class is a predicate on
  characters. \<open>lang\<close> is the set of strings a regular expression matches as a whole (the
  expressions of the source that are anchored at both ends); \<open>matches\<close> decides it by
  derivatives and is executable.
\<close>

datatype regex =
    RNone
  | REps
  | RChar "char \<Rightarrow> bool"
  | RSeq regex regex
  | RAlt regex regex
  | RStar regex

inductive_set star_lang :: "string set \<Rightarrow> string set" for A :: "string set" where
  star_empty: "[] \<in> star_lang A"
| star_step: "u \<in> A \<Longrightarrow> v \<in> star_lang A \<Longrightarrow> u @ v \<in> star_lang A"

fun lang :: "regex \<Rightarrow> string set" where
  "lang RNone = {}"
| "lang REps = {[]}"
| "lang (RChar P) = {[c] | c. P c}"
| "lang (RSeq r s) = {u @ v | u v. u \<in> lang r \<and> v \<in> lang s}"
| "lang (RAlt r s) = lang r \<union> lang s"
| "lang (RStar r) = star_lang (lang r)"

fun nullable :: "regex \<Rightarrow> bool" where
  "nullable RNone = False"
| "nullable REps = True"
| "nullable (RChar P) = False"
| "nullable (RSeq r s) = (nullable r \<and> nullable s)"
| "nullable (RAlt r s) = (nullable r \<or> nullable s)"
| "nullable (RStar r) = True"

fun deriv :: "char \<Rightarrow> regex \<Rightarrow> regex" where
  "deriv c RNone = RNone"
| "deriv c REps = RNone"
| "deriv c (RChar P) = (if P c then REps else RNone)"
| "deriv c (RSeq r s) =
     (if nullable r then RAlt (RSeq (deriv c r) s) (deriv c s) else RSeq (deriv c r) s)"
| "deriv c (RAlt r s) = RAlt (deriv c r) (deriv c s)"
| "deriv c (RStar r) = RSeq (deriv c r) (RStar r)"

fun matches :: "regex \<Rightarrow> string \<Rightarrow> bool" where
  "matches r [] = nullable r"
| "matches r (c # cs) = matches (deriv c r) cs"

text \<open>\<open>r+\<close>, \<open>r?\<close> and a literal character.\<close>

definition RPlus :: "regex \<Rightarrow> regex" where
  "RPlus r = RSeq r (RStar r)"

definition ROpt :: "regex \<Rightarrow> regex" where
  "ROpt r = RAlt r REps"

definition RLit :: "char \<Rightarrow> regex" where
  "RLit c = RChar (\<lambda>x. x = c)"

text \<open>
  \<open>.\<close> matches every character but a line terminator: line feed and carriage return
  (the other two line terminators of JavaScript, U+2028 and U+2029, are not 8-bit
  characters). \<open>\d\<close> is \<open>is_digit\<close>. \<open>\s\<close> is the white space of JavaScript below 256.
\<close>

definition dot_char :: "char \<Rightarrow> bool" where
  "dot_char c = (c \<noteq> CHR 0x0A \<and> c \<noteq> CHR 0x0D)"

definition any_char :: "char \<Rightarrow> bool" where
  "any_char c = True"

definition is_space :: "char \<Rightarrow> bool" where
  "is_space c = (c \<in> {CHR 0x09, CHR 0x0A, CHR 0x0B, CHR 0x0C, CHR 0x0D, CHR 0x20, CHR 0xA0})"

section \<open>The commit classifier (src/util.ts, lines 45-157)\<close>

datatype Diagnostic =
    UnknownCommit Commit string
  | UnknownRangeCommit Commit string
  | SkippedCommit Commit string
  | MissingRange Commit string

text \<open>
  The value of the field \<open>version\<close> of a \<open>VersionBump\<close>. The code reads it from the object
  literal \<open>TAG_TO_VERSION\<close> with \<open>TAG_TO_VERSION[tag]\<close>, and an object literal inherits the
  properties of \<open>Object.prototype\<close>: for a tag such as \<open>toString\<close> the lookup yields the
  inherited member, which is neither \<open>undefined\<close> nor a \<open>VersionUpdate\<close>.
\<close>

datatype js_version = Undefined | Version VersionUpdate | ObjectMember string

record VersionBump =
  bump_module :: string
  bump_tag :: string
  bump_commit :: Commit
  bump_version :: js_version

text \<open>\<open>[^:()]\<close>\<close>

definition tag_char :: "char \<Rightarrow> bool" where
  "tag_char c = (c \<noteq> CHR '':'' \<and> c \<noteq> CHR ''('' \<and> c \<noteq> CHR '')'')"

text \<open>\<open>const RE_DEFAULT_PATTERN = /^([^:()]+)(?:\((.+)\))?: (.*)$/;\<close>\<close>

definition RE_DEFAULT_PATTERN :: regex where
  "RE_DEFAULT_PATTERN =
     RSeq (RPlus (RChar tag_char))
       (RSeq (ROpt (RSeq (RLit CHR ''('') (RSeq (RPlus (RChar dot_char)) (RLit CHR '')''))))
         (RSeq (RLit CHR '':'') (RSeq (RLit CHR '' '') (RStar (RChar dot_char)))))"

text \<open>
  The grammar as section 6 of the specification writes it,
  \<open>^([^:()]+)(?:\(([^)]+)\))?: (.*)$\<close>: the scope list is \<open>[^)]+\<close>.
\<close>

definition spec_grammar :: regex where
  "spec_grammar =
     RSeq (RPlus (RChar tag_char))
       (RSeq (ROpt (RSeq (RLit CHR ''('') (RSeq (RPlus (RChar (\<lambda>c. c \<noteq> CHR '')''))) (RLit CHR '')''))))
         (RSeq (RLit CHR '':'') (RSeq (RLit CHR '' '') (RStar (RChar dot_char)))))"

text \<open>
  \<open>RE_DEFAULT_PATTERN.exec(subject)\<close> with its three groups. Group 1 is the longest
  prefix of tag characters: what follows it in a match is \<open>(\<close> or \<open>:\<close>, which are not tag
  characters. After \<open>(\<close> the greedy \<open>.+\<close> takes at least one character and then runs to
  the last \<open>): \<close> of the subject, which \<open>split_last_close\<close> finds.
\<close>

record RegExpMatch =
  group1 :: string
  group2 :: "string option"
  group3 :: string

fun split_last_close :: "string \<Rightarrow> (string \<times> string) option" where
  "split_last_close [] = None"
| "split_last_close (c # cs) =
     (case split_last_close cs of
        Some (a, b) \<Rightarrow> Some (c # a, b)
      | None \<Rightarrow> if c = CHR '')'' \<and> take 2 cs = '': '' then Some ([], drop 2 cs) else None)"

definition RE_DEFAULT_PATTERN_exec :: "string \<Rightarrow> RegExpMatch option" where
  "RE_DEFAULT_PATTERN_exec s =
     (let g1 = takeWhile tag_char s; rest = dropWhile tag_char s
      in if g1 = [] then None
         else if take 2 rest = '': '' then
           (if list_all dot_char (drop 2 rest)
            then Some \<lparr>group1 = g1, group2 = None, group3 = drop 2 rest\<rparr> else None)
         else if take 1 rest = ''('' \<and> drop 1 rest \<noteq> [] then
           (case split_last_close (drop 2 rest) of
              None \<Rightarrow> None
            | Some (a, b) \<Rightarrow>
                if list_all dot_char (hd (drop 1 rest) # a) \<and> list_all dot_char b
                then Some \<lparr>group1 = g1, group2 = Some (hd (drop 1 rest) # a), group3 = b\<rparr>
                else None)
         else None)"

text \<open>Defines the version bump for each tag (the own properties, in the order written).\<close>

definition TAG_TO_VERSION :: "(string \<times> VersionUpdate) list" where
  "TAG_TO_VERSION =
     [(''BREAKING'', Major), (''feat'', Minor), (''deprecation'', Patch), (''fix'', Patch),
      (''perf'', Patch), (''docs'', Patch), (''style'', Patch), (''refactor'', Patch),
      (''test'', Patch), (''chore'', Patch)]"

text \<open>\<open>const TAG_PRIORITY = Object.keys(TAG_TO_VERSION);\<close>\<close>

definition TAG_PRIORITY :: "string list" where
  "TAG_PRIORITY = map fst TAG_TO_VERSION"

definition DEFAULT_RANGE_REQUIRED :: "string list" where
  "DEFAULT_RANGE_REQUIRED = [''BREAKING'', ''feat'', ''fix'', ''perf'', ''deprecation'']"

text \<open>The property names every object created by an object literal inherits.\<close>

definition Object_prototype_keys :: "string list" where
  "Object_prototype_keys =
     [''constructor'', ''__defineGetter__'', ''__defineSetter__'', ''hasOwnProperty'',
      ''__lookupGetter__'', ''__lookupSetter__'', ''isPrototypeOf'', ''propertyIsEnumerable'',
      ''toString'', ''valueOf'', ''__proto__'', ''toLocaleString'']"

text \<open>\<open>TAG_TO_VERSION[tag]\<close>\<close>

definition TAG_TO_VERSION_get :: "string \<Rightarrow> js_version" where
  "TAG_TO_VERSION_get t =
     (case map_of TAG_TO_VERSION t of
        Some v \<Rightarrow> Version v
      | None \<Rightarrow> if t \<in> set Object_prototype_keys then ObjectMember t else Undefined)"

text \<open>
  \<open>module.split(/\s*,\s*/)\<close>: every comma is a separator, together with the white space
  around it. \<open>split_at\<close> cuts at the commas; a piece loses its leading white space when a
  comma precedes it and its trailing white space when a comma follows it.
\<close>

definition trim_start :: "string \<Rightarrow> string" where
  "trim_start s = dropWhile is_space s"

definition trim_end :: "string \<Rightarrow> string" where
  "trim_end s = rev (dropWhile is_space (rev s))"

fun trim_pieces :: "bool \<Rightarrow> string list \<Rightarrow> string list" where
  "trim_pieces after_comma [] = []"
| "trim_pieces after_comma [p] = [if after_comma then trim_start p else p]"
| "trim_pieces after_comma (p # q # ps) =
     trim_end (if after_comma then trim_start p else p) # trim_pieces True (q # ps)"

definition split_scopes :: "string \<Rightarrow> string list" where
  "split_scopes s = trim_pieces False (split_at CHR '','' s)"

definition defaultParseCommitMessage ::
  "Commit \<Rightarrow> WorkspaceModule list \<Rightarrow> Diagnostic + VersionBump list"
where
  "defaultParseCommitMessage commit workspaceModules =
     (case RE_DEFAULT_PATTERN_exec (subject commit) of
        None \<Rightarrow>
          Inl (UnknownCommit commit ''The commit message does not match the default pattern.'')
      | Some m \<Rightarrow>
          (let tg = group1 m;
               module = group2 m;
               modules = (if module = Some ''*'' then map name workspaceModules
                          else if module \<noteq> None \<and> module \<noteq> Some [] then split_scopes (the module)
                          else [])
           in if length modules = 0 then
                (if tg \<in> set DEFAULT_RANGE_REQUIRED
                 then Inl (MissingRange commit ''The commit message does not specify a module.'')
                 else Inl (SkippedCommit commit ''The commit message does not specify a module.''))
              else
                (let v = TAG_TO_VERSION_get tg
                 in if v = Undefined
                    then Inl (UnknownCommit commit (''Unknown commit tag: '' @ tg @ ''.''))
                    else Inr (map (\<lambda>module. \<lparr>bump_module = module, bump_tag = tg,
                                             bump_commit = commit, bump_version = v\<rparr>) modules))))"

text \<open>
  What the caller does with the result of a parser: an array is a list of proposals, a
  diagnostic contributes none (src/mod.ts, lines 151-163).
\<close>

definition proposals :: "Diagnostic + VersionBump list \<Rightarrow> VersionBump list" where
  "proposals parsed = (case parsed of Inl d \<Rightarrow> [] | Inr bumps \<Rightarrow> bumps)"

text \<open>The text of the subject between group 1 and \<open>: \<close>: nothing, or the scope list in parentheses.\<close>

definition scope_text :: "string option \<Rightarrow> string" where
  "scope_text g = (case g of None \<Rightarrow> [] | Some x \<Rightarrow> ''('' @ x @ '')'')"

section \<open>The module resolver (src/util.ts, lines 265-284)\<close>

text \<open>\<open>s.endsWith(suffix)\<close>\<close>

definition endsWith :: "string \<Rightarrow> string \<Rightarrow> bool" where
  "endsWith s suffix = (length suffix \<le> length s \<and> drop (length s - length suffix) s = suffix)"

definition module_matches :: "string \<Rightarrow> WorkspaceModule \<Rightarrow> bool" where
  "module_matches module m = (name m = module \<or> endsWith (name m) (''/'' @ module))"

definition getModule :: "string \<Rightarrow> WorkspaceModule list \<Rightarrow> WorkspaceModule option" where
  "getModule module modules = find (module_matches module) modules"

definition checkModuleName :: "VersionBump \<Rightarrow> WorkspaceModule list \<Rightarrow> Diagnostic option" where
  "checkModuleName versionBump modules =
     (if getModule (bump_module versionBump) modules \<noteq> None then None
      else Some (UnknownRangeCommit (bump_commit versionBump)
                   (''Unknown module: '' @ bump_module versionBump @ ''.'')))"

section \<open>The loop over the commits (src/mod.ts, lines 139-164)\<close>

text \<open>
  \<open>/^v?\d+\.\d+\.\d+/\<close> and \<open>/^Release \d+\.\d+\.\d+/\<close>, used with \<open>test\<close>: they are anchored
  at the start only, so anything may follow.
\<close>

definition three_numbers :: regex where
  "three_numbers =
     RSeq (RPlus (RChar is_digit)) (RSeq (RLit CHR ''.'')
       (RSeq (RPlus (RChar is_digit)) (RSeq (RLit CHR ''.'')
         (RSeq (RPlus (RChar is_digit)) (RStar (RChar any_char))))))"

definition RE_VERSION_SUBJECT :: regex where
  "RE_VERSION_SUBJECT = RSeq (ROpt (RLit CHR ''v'')) three_numbers"

definition RE_RELEASE_SUBJECT :: regex where
  "RE_RELEASE_SUBJECT =
     RSeq (RLit CHR ''R'') (RSeq (RLit CHR ''e'') (RSeq (RLit CHR ''l'') (RSeq (RLit CHR ''e'')
       (RSeq (RLit CHR ''a'') (RSeq (RLit CHR ''s'') (RSeq (RLit CHR ''e'') (RSeq (RLit CHR '' '')
         three_numbers)))))))"

text \<open>The inner loop: \<open>for (const versionBump of parsed)\<close>, on the two arrays it fills.\<close>

fun check_bumps ::
  "WorkspaceModule list \<Rightarrow> VersionBump list \<Rightarrow> VersionBump list \<times> Diagnostic list
     \<Rightarrow> VersionBump list \<times> Diagnostic list"
where
  "check_bumps modules [] st = st"
| "check_bumps modules (versionBump # rest) (versionBumps, diagnostics) =
     (case checkModuleName versionBump modules of
        Some diagnostic \<Rightarrow> check_bumps modules rest (versionBumps, diagnostics @ [diagnostic])
      | None \<Rightarrow> check_bumps modules rest (versionBumps @ [versionBump], diagnostics))"

text \<open>
  The outer loop: \<open>for (const commit of commits)\<close>. \<open>parseCommitMessage\<close> is an option of
  \<open>bumpWorkspaces\<close> (a function of the commit), so it is a parameter here.
\<close>

fun collect_bumps ::
  "(Commit \<Rightarrow> Diagnostic + VersionBump list) \<Rightarrow> WorkspaceModule list \<Rightarrow> Commit list
     \<Rightarrow> VersionBump list \<times> Diagnostic list \<Rightarrow> VersionBump list \<times> Diagnostic list"
where
  "collect_bumps parseCommitMessage modules [] st = st"
| "collect_bumps parseCommitMessage modules (commit # commits) (versionBumps, diagnostics) =
     (if matches RE_VERSION_SUBJECT (subject commit) then
        \<comment> \<open>Skip if the commit subject is version bump\<close>
        collect_bumps parseCommitMessage modules commits (versionBumps, diagnostics)
      else if matches RE_RELEASE_SUBJECT (subject commit) then
        \<comment> \<open>Skip if the commit subject is release\<close>
        collect_bumps parseCommitMessage modules commits (versionBumps, diagnostics)
      else
        (case parseCommitMessage commit of
           Inr parsed \<Rightarrow>
             collect_bumps parseCommitMessage modules commits
               (check_bumps modules parsed (versionBumps, diagnostics))
         | Inl d \<Rightarrow>
             \<comment> \<open>The commit message is completely unknown\<close>
             collect_bumps parseCommitMessage modules commits (versionBumps, diagnostics @ [d])))"

text \<open>The commits the loop does not skip, and the proposals the parser makes from them.\<close>

definition considered :: "Commit list \<Rightarrow> Commit list" where
  "considered commits =
     filter (\<lambda>c. \<not> matches RE_VERSION_SUBJECT (subject c) \<and> \<not> matches RE_RELEASE_SUBJECT (subject c))
       commits"

definition all_proposals :: "(Commit \<Rightarrow> Diagnostic + VersionBump list) \<Rightarrow> Commit list \<Rightarrow> VersionBump list" where
  "all_proposals parseCommitMessage commits =
     concat (map (\<lambda>c. proposals (parseCommitMessage c)) (considered commits))"

section \<open>The bump aggregator (src/util.ts, lines 159-198)\<close>

text \<open>
  \<open>maxVersion(v0, v1)\<close>. The arguments are compared with \<open>"major"\<close> and \<open>"minor"\<close> only, so the
  function returns \<open>"patch"\<close> for every other pair of values.
\<close>

definition maxVersion :: "js_version \<Rightarrow> js_version \<Rightarrow> VersionUpdate" where
  "maxVersion v0 v1 =
     (if v0 = Version Major \<or> v1 = Version Major then Major
      else if v0 = Version Minor \<or> v1 = Version Minor then Minor
      else Patch)"

text \<open>\<open>xs.indexOf(x)\<close>: the first position of \<open>x\<close>, or \<open>-1\<close>.\<close>

fun indexOf :: "'a list \<Rightarrow> 'a \<Rightarrow> int" where
  "indexOf [] x = - 1"
| "indexOf (y # ys) x =
     (if y = x then 0 else (let i = indexOf ys x in if i < 0 then - 1 else i + 1))"

text \<open>\<open>{ ...versionBump.commit, tag: versionBump.tag }\<close>\<close>

definition commit_with_tag :: "VersionBump \<Rightarrow> CommitWithTag" where
  "commit_with_tag versionBump =
     \<lparr>subject = subject (bump_commit versionBump), body = body (bump_commit versionBump),
      hash = hash (bump_commit versionBump), tag = bump_tag versionBump\<rparr>"

text \<open>
  One turn of the first loop of \<open>summarizeVersionBumpsByModule\<close>. \<open>result\<close> is the object
  \<open>{}\<close> as the list of its own properties, in the order of their creation.
  \<open>result[module]\<close> of a module that has no own property finds the inherited member when
  the module is the name of a property of \<open>Object.prototype\<close>; that member is not
  \<open>undefined\<close>, so it becomes \<open>summary\<close>, it has no \<open>commits\<close>, and
  \<open>summary.commits.push\<close> throws a \<open>TypeError\<close>.
\<close>

definition add_bump ::
  "(string \<times> VersionBumpSummary) list \<Rightarrow> VersionBump \<Rightarrow> error + (string \<times> VersionBumpSummary) list"
where
  "add_bump result versionBump =
     (let module = bump_module versionBump; v = bump_version versionBump
      in case map_of result module of
           Some s \<Rightarrow>
             Inr (AList.update module
                    (s\<lparr>summary_version := maxVersion (Version (summary_version s)) v,
                       summary_commits := summary_commits s @ [commit_with_tag versionBump]\<rparr>)
                    result)
         | None \<Rightarrow>
             if module \<in> set Object_prototype_keys then Inl TypeErrorUndefined
             else Inr (AList.update module
                         \<lparr>summary_module = module, summary_version = maxVersion v v,
                          summary_commits = [commit_with_tag versionBump]\<rparr>
                         result))"

fun summarize_loop ::
  "VersionBump list \<Rightarrow> (string \<times> VersionBumpSummary) list
     \<Rightarrow> error + (string \<times> VersionBumpSummary) list"
where
  "summarize_loop [] result = Inr result"
| "summarize_loop (versionBump # rest) result =
     (case add_bump result versionBump of
        Inl e \<Rightarrow> Inl e
      | Inr result' \<Rightarrow> summarize_loop rest result')"

text \<open>
  The second loop sorts the commits of every summary with a comparator on
  \<open>TAG_PRIORITY.indexOf(tag)\<close>. \<open>Array.prototype.sort\<close> is stable and the comparator is a
  total preorder, so the result is the stable sort by that key, which \<open>sort_key\<close> is.
\<close>

definition sort_commits :: "VersionBumpSummary \<Rightarrow> VersionBumpSummary" where
  "sort_commits s =
     s\<lparr>summary_commits := sort_key (\<lambda>c. indexOf TAG_PRIORITY (tag c)) (summary_commits s)\<rparr>"

text \<open>
  \<open>Object.values(result).sort((a, b) => a.module < b.module ? -1 : 1)\<close>. The modules of
  the values are the keys of \<open>result\<close> and differ from each other, so the comparator is a
  strict total order on them and the sorted array does not depend on the order in which
  \<open>Object.values\<close> lists them.
\<close>

definition summarizeVersionBumpsByModule :: "VersionBump list \<Rightarrow> error + VersionBumpSummary list" where
  "summarizeVersionBumpsByModule versionBumps =
     (case summarize_loop versionBumps [] of
        Inl e \<Rightarrow> Inl e
      | Inr result \<Rightarrow> Inr (sort_key summary_module (map (\<lambda>kv. sort_commits (snd kv)) result)))"

text \<open>
  The proposals of one module, the order of severities \<open>major > minor > patch\<close> as a rank
  (every other value ranks with \<open>patch\<close>, as \<open>maxVersion\<close> treats it), and the summary of
  one module in closed form.
\<close>

definition bumps_for :: "string \<Rightarrow> VersionBump list \<Rightarrow> VersionBump list" where
  "bumps_for module versionBumps = filter (\<lambda>b. bump_module b = module) versionBumps"

definition severity_rank :: "js_version \<Rightarrow> nat" where
  "severity_rank v = (if v = Version Major then 2 else if v = Version Minor then 1 else 0)"

definition max_severity :: "js_version list \<Rightarrow> VersionUpdate" where
  "max_severity vs =
     (if Version Major \<in> set vs then Major else if Version Minor \<in> set vs then Minor else Patch)"

definition raw_summary :: "VersionBump list \<Rightarrow> string \<Rightarrow> VersionBumpSummary" where
  "raw_summary versionBumps module =
     \<lparr>summary_module = module,
      summary_version = max_severity (map bump_version (bumps_for module versionBumps)),
      summary_commits = map commit_with_tag (bumps_for module versionBumps)\<rparr>"

definition summary_for :: "VersionBump list \<Rightarrow> string \<Rightarrow> VersionBumpSummary" where
  "summary_for versionBumps module = sort_commits (raw_summary versionBumps module)"

section \<open>The rules of the specification, for comparison\<close>

text \<open>
  The diff rule in the words of section 4.4, rule 2 of the specification: prerelease if
  the new version carries a prerelease; else the first of major, minor, patch that
  differs; else, if the prior had a prerelease, patch if the patch is not zero, else
  minor if the minor is not zero, else major; every other combination is an error.
\<close>

definition spec_diff_rule :: "SemVer \<Rightarrow> SemVer \<Rightarrow> VersionUpdate option" where
  "spec_diff_rule new old =
     (if prerelease new \<noteq> [] then Some Prerelease
      else if major new \<noteq> major old then Some Major
      else if minor new \<noteq> minor old then Some Minor
      else if patch new \<noteq> patch old then Some Patch
      else if prerelease old \<noteq> [] then
        Some (if patch new \<noteq> 0 then Patch else if minor new \<noteq> 0 then Minor else Major)
      else None)"

text \<open>
  The two downgrades of section 4.4, rule 3: on a major component \<open>0\<close>, major becomes
  minor and minor becomes patch; on a version with a prerelease the magnitude is
  prerelease.
\<close>

definition adjust_severity :: "SemVer \<Rightarrow> VersionUpdate \<Rightarrow> VersionUpdate" where
  "adjust_severity cur severity =
     (if prerelease cur \<noteq> [] then Prerelease
      else if major cur = 0 then (case severity of Major \<Rightarrow> Minor | Minor \<Rightarrow> Patch | s \<Rightarrow> s)
      else severity)"

text \<open>The three fields of a resolution the specification names, or the error.\<close>

definition resolution_view ::
  "error + string \<times> VersionUpdateResult \<Rightarrow> error + string \<times> string \<times> VersionUpdate"
where
  "resolution_view r =
     map_sum id (\<lambda>p. (from_version (snd p), to_version (snd p), diff (snd p))) r"

section \<open>Notions for the statements about the loops\<close>

text \<open>The diagnostic of \<open>checkModuleName\<close>, and the diagnostics the loop over the commits collects.\<close>

definition unknown_range :: "VersionBump \<Rightarrow> Diagnostic" where
  "unknown_range b = UnknownRangeCommit (bump_commit b) (''Unknown module: '' @ bump_module b @ ''.'')"

definition all_diagnostics ::
  "(Commit \<Rightarrow> Diagnostic + VersionBump list) \<Rightarrow> WorkspaceModule list \<Rightarrow> Commit list \<Rightarrow> Diagnostic list" where
  "all_diagnostics parseCommitMessage modules commits =
     concat (map (\<lambda>c. case parseCommitMessage c of
                        Inl d \<Rightarrow> [d]
                      | Inr parsed \<Rightarrow>
                          map unknown_range
                            (filter (\<lambda>b. getModule (bump_module b) modules = None) parsed))
                 (considered commits))"

text \<open>
  The state of the first loop of \<open>summarizeVersionBumpsByModule\<close> after the proposals \<open>bs\<close>:
  one own property for each module that occurs, holding the summary of that module.
\<close>

definition loop_spec :: "VersionBump list \<Rightarrow> (string \<times> VersionBumpSummary) list \<Rightarrow> bool" where
  "loop_spec bs r \<longleftrightarrow>
     distinct (map fst r) \<and>
     (\<forall>k. map_of r k = (if bumps_for k bs = [] then None else Some (raw_summary bs k)))"

section \<open>Example data\<close>

text \<open>
  An input for the parameter \<open>regexp_replace\<close> in the examples: what
  \<open>text.replace(new RegExp(source, "g"), template)\<close> returns when the source is a pattern
  that matches nowhere in the text, as the sources \<open>@scope/foo@([^~]?)0.5.0\<close> of the examples
  in the text \<open>{}\<close>: the text.
\<close>

definition replace_without_match :: "string \<Rightarrow> string \<Rightarrow> string \<Rightarrow> string option" where
  "replace_without_match source template text = Some text"

text \<open>Two modules, six commits, the proposals they make and the summaries of these.\<close>

definition example_modules :: "WorkspaceModule list" where
  "example_modules =
     [\<lparr>name = ''@scope/foo'', version = ''1.2.3'', path = ''foo/deno.json''\<rparr>,
      \<lparr>name = ''@scope/bar'', version = ''0.2.3'', path = ''bar/deno.json''\<rparr>]"

definition example_commits :: "Commit list" where
  "example_commits =
     [\<lparr>subject = ''fix(foo): a'', body = '''', hash = ''1''\<rparr>,
      \<lparr>subject = ''feat(bar,foo): b'', body = '''', hash = ''2''\<rparr>,
      \<lparr>subject = ''BREAKING(baz): c'', body = '''', hash = ''3''\<rparr>,
      \<lparr>subject = ''v1.2.3'', body = '''', hash = ''4''\<rparr>,
      \<lparr>subject = ''BREAKING(foo): d'', body = '''', hash = ''5''\<rparr>,
      \<lparr>subject = ''random commit'', body = '''', hash = ''6''\<rparr>]"

definition example_bumps :: "VersionBump list" where
  "example_bumps =
     [\<lparr>bump_module = ''foo'', bump_tag = ''fix'',
       bump_commit = \<lparr>subject = ''fix(foo): a'', body = '''', hash = ''1''\<rparr>,
       bump_version = Version Patch\<rparr>,
      \<lparr>bump_module = ''bar'', bump_tag = ''feat'',
       bump_commit = \<lparr>subject = ''feat(bar,foo): b'', body = '''', hash = ''2''\<rparr>,
       bump_version = Version Minor\<rparr>,
      \<lparr>bump_module = ''foo'', bump_tag = ''feat'',
       bump_commit = \<lparr>subject = ''feat(bar,foo): b'', body = '''', hash = ''2''\<rparr>,
       bump_version = Version Minor\<rparr>,
      \<lparr>bump_module = ''foo'', bump_tag = ''BREAKING'',
       bump_commit = \<lparr>subject = ''BREAKING(foo): d'', body = '''', hash = ''5''\<rparr>,
       bump_version = Version Major\<rparr>]"

definition example_summaries :: "VersionBumpSummary list" where
  "example_summaries =
     [\<lparr>summary_module = ''bar'', summary_version = Minor,
       summary_commits =
         [\<lparr>subject = ''feat(bar,foo): b'', body = '''', hash = ''2'', tag = ''feat''\<rparr>]\<rparr>,
      \<lparr>summary_module = ''foo'', summary_version = Major,
       summary_commits =
         [\<lparr>subject = ''BREAKING(foo): d'', body = '''', hash = ''5'', tag = ''BREAKING''\<rparr>,
          \<lparr>subject = ''feat(bar,foo): b'', body = '''', hash = ''2'', tag = ''feat''\<rparr>,
          \<lparr>subject = ''fix(foo): a'', body = '''', hash = ''1'', tag = ''fix''\<rparr>]\<rparr>]"

section \<open>Properties of the version reconciler\<close>

subsection \<open>The versions of the examples\<close>

lemma parse_0_0_0:
  "parseSemVer ''0.0.0'' = Inr \<lparr>major = 0, minor = 0, patch = 0, prerelease = [], build = []\<rparr>"
  by code_simp

lemma parse_0_1_0:
  "parseSemVer ''0.1.0'' = Inr \<lparr>major = 0, minor = 1, patch = 0, prerelease = [], build = []\<rparr>"
  by code_simp

lemma parse_0_5_0:
  "parseSemVer ''0.5.0'' = Inr \<lparr>major = 0, minor = 5, patch = 0, prerelease = [], build = []\<rparr>"
  by code_simp

lemma parse_1_2_3:
  "parseSemVer ''1.2.3'' = Inr \<lparr>major = 1, minor = 2, patch = 3, prerelease = [], build = []\<rparr>"
  by code_simp

lemma parse_1_0_0:
  "parseSemVer ''1.0.0'' = Inr \<lparr>major = 1, minor = 0, patch = 0, prerelease = [], build = []\<rparr>"
  by code_simp

lemma parse_0_224_0:
  "parseSemVer ''0.224.0'' = Inr \<lparr>major = 0, minor = 224, patch = 0, prerelease = [], build = []\<rparr>"
  by code_simp

lemma parse_1_0_0_rc_1:
  "parseSemVer ''1.0.0-rc.1'' =
     Inr \<lparr>major = 1, minor = 0, patch = 0, prerelease = [TextId ''rc'', NumericId 1], build = []\<rparr>"
  by code_simp

lemma parse_0_0_0_rc_1:
  "parseSemVer ''0.0.0-rc.1'' =
     Inr \<lparr>major = 0, minor = 0, patch = 0, prerelease = [TextId ''rc'', NumericId 1], build = []\<rparr>"
  by code_simp

lemma increment_examples:
  "formatSemver (increment \<lparr>major = 1, minor = 2, patch = 3, prerelease = [], build = []\<rparr> Patch)
     = ''1.2.4''"
  "formatSemver (increment \<lparr>major = 0, minor = 5, patch = 0, prerelease = [], build = []\<rparr> Minor)
     = ''0.6.0''"
  "formatSemver (increment \<lparr>major = 0, minor = 5, patch = 0, prerelease = [], build = []\<rparr> Patch)
     = ''0.5.1''"
  "formatSemver (increment \<lparr>major = 1, minor = 0, patch = 0,
       prerelease = [TextId ''rc'', NumericId 1], build = []\<rparr> Prerelease) = ''1.0.0-rc.2''"
  by code_simp+

lemma parse_2_0_0:
  "parseSemVer ''2.0.0'' = Inr \<lparr>major = 2, minor = 0, patch = 0, prerelease = [], build = []\<rparr>"
  by code_simp

subsection \<open>A manual edit of the version\<close>

text \<open>
  Claim C1, as amended. When the prior snapshot and the current version are different
  strings and both are semantic versions, the magnitude is the diff rule of the
  specification, with one exception: a version \<open>0.0.0\<close> that finalizes a prerelease of
  \<open>0.0.0\<close> is not given the magnitude major, it is the error
  \<open>UnexpectedManualVersionUpdate\<close>, as is every combination the rule gives no magnitude.
  The result keeps the two versions and the text of the import map as they are.
\<close>

theorem manual_edit_diff:
  assumes "version old \<noteq> version module"
    and "parseSemVer (version module) = Inr n"
    and "parseSemVer (version old) = Inr p"
  shows "applyVersionBump regexp_replace summ module (Some old) denoJson =
     (if prerelease n = [] \<and> prerelease p \<noteq> [] \<and> major n = 0 \<and> minor n = 0 \<and> patch n = 0 \<and>
         major p = 0 \<and> minor p = 0 \<and> patch p = 0
      then Inl UnexpectedManualVersionUpdate
      else case spec_diff_rule n p of
             None \<Rightarrow> Inl UnexpectedManualVersionUpdate
           | Some d \<Rightarrow>
               Inr (denoJson,
                    \<lparr>from_version = version old, to_version = version module, diff = d,
                     result_path = path module, summary = summ\<lparr>summary_version := d\<rparr>\<rparr>))"
  using assms
  by (simp add: applyVersionBump_def calcVersionDiff_def hasPrerelease_def spec_diff_rule_def)

text \<open>
  The example of the specification: from \<open>1.0.0-rc.1\<close> to \<open>1.0.0\<close> the magnitude is
  major, whatever the severity of the summary.
\<close>

theorem manual_edit_diff_witness:
  "applyVersionBump replace_without_match
      \<lparr>summary_module = ''foo'', summary_version = Patch, summary_commits = []\<rparr>
      \<lparr>name = ''@scope/foo'', version = ''1.0.0'', path = ''foo/deno.jsonc''\<rparr>
      (Some \<lparr>name = ''@scope/foo'', version = ''1.0.0-rc.1'', path = ''foo/deno.jsonc''\<rparr>) ''{}''
   = Inr (''{}'',
          \<lparr>from_version = ''1.0.0-rc.1'', to_version = ''1.0.0'', diff = Major,
           result_path = ''foo/deno.jsonc'',
           summary = \<lparr>summary_module = ''foo'', summary_version = Major, summary_commits = []\<rparr>\<rparr>)"
proof -
  let ?m = "\<lparr>name = ''@scope/foo'', version = ''1.0.0'', path = ''foo/deno.jsonc''\<rparr>"
  let ?o = "\<lparr>name = ''@scope/foo'', version = ''1.0.0-rc.1'', path = ''foo/deno.jsonc''\<rparr>"
  have h1: "version ?o \<noteq> version ?m" by simp
  have h2: "parseSemVer (version ?m) =
      Inr \<lparr>major = 1, minor = 0, patch = 0, prerelease = [], build = []\<rparr>"
    by (simp add: parse_1_0_0)
  have h3: "parseSemVer (version ?o) =
      Inr \<lparr>major = 1, minor = 0, patch = 0, prerelease = [TextId ''rc'', NumericId 1], build = []\<rparr>"
    by (simp add: parse_1_0_0_rc_1)
  show ?thesis
    using manual_edit_diff [OF h1 h2 h3] by (simp add: spec_diff_rule_def)
qed

text \<open>
  The other example of the specification: from \<open>0.224.0\<close> to \<open>1.0.0-rc.1\<close> the magnitude is
  prerelease, and the versions stay as they are.
\<close>

lemma manual_edit_prerelease_example:
  "resolution_view (applyVersionBump regexp_replace summ (module\<lparr>version := ''1.0.0-rc.1''\<rparr>)
       (Some (old\<lparr>version := ''0.224.0''\<rparr>)) denoJson)
     = Inr (''0.224.0'', ''1.0.0-rc.1'', Prerelease)"
  by (simp add: applyVersionBump_def calcVersionDiff_def parse_1_0_0_rc_1 parse_0_224_0
      hasPrerelease_def resolution_view_def)

text \<open>
  Claim C1 as stated fails: from \<open>0.0.0-rc.1\<close> to \<open>0.0.0\<close> the rule of the specification
  gives the magnitude major, and the code throws.
\<close>

theorem manual_edit_zero_counterexample:
  "parseSemVer ''0.0.0'' = Inr \<lparr>major = 0, minor = 0, patch = 0, prerelease = [], build = []\<rparr> \<and>
   parseSemVer ''0.0.0-rc.1'' =
     Inr \<lparr>major = 0, minor = 0, patch = 0, prerelease = [TextId ''rc'', NumericId 1], build = []\<rparr> \<and>
   ''0.0.0-rc.1'' \<noteq> ''0.0.0'' \<and>
   spec_diff_rule \<lparr>major = 0, minor = 0, patch = 0, prerelease = [], build = []\<rparr>
     \<lparr>major = 0, minor = 0, patch = 0, prerelease = [TextId ''rc'', NumericId 1], build = []\<rparr>
     = Some Major \<and>
   applyVersionBump replace_without_match
      \<lparr>summary_module = ''foo'', summary_version = Patch, summary_commits = []\<rparr>
      \<lparr>name = ''@scope/foo'', version = ''0.0.0'', path = ''foo/deno.json''\<rparr>
      (Some \<lparr>name = ''@scope/foo'', version = ''0.0.0-rc.1'', path = ''foo/deno.json''\<rparr>) ''{}''
   = Inl UnexpectedManualVersionUpdate"
  by (simp add: parse_0_0_0 parse_0_0_0_rc_1 spec_diff_rule_def applyVersionBump_def
      calcVersionDiff_def hasPrerelease_def)

subsection \<open>An unchanged version\<close>

lemma unchanged_version_general:
  assumes "version old = version module" and "parseSemVer (version module) = Inr cur"
  shows "applyVersionBump regexp_replace summ module (Some old) denoJson =
     (case regexp_replace (name module @ ''@([^~]?)'' @ version module)
             (name module @ ''@$1'' @
                formatSemver (increment cur (adjust_severity cur (summary_version summ))))
             denoJson of
        None \<Rightarrow> Inl RegExpSyntaxError
      | Some denoJson' \<Rightarrow>
          Inr (denoJson',
               \<lparr>from_version = version module,
                to_version =
                  formatSemver (increment cur (adjust_severity cur (summary_version summ))),
                diff = adjust_severity cur (summary_version summ),
                result_path = path module,
                summary = summ\<lparr>summary_version := adjust_severity cur (summary_version summ)\<rparr>\<rparr>))"
  using assms
  by (cases "regexp_replace (name module @ ''@([^~]?)'' @ version module)
             (name module @ ''@$1'' @
                formatSemver (increment cur (adjust_severity cur (summary_version summ))))
             denoJson")
     (auto simp add: applyVersionBump_def adjust_severity_def Let_def
        simp del: increment.simps split: VersionUpdate.splits)

lemma unchanged_version_example:
  assumes "parseSemVer v = Inr cur"
    and "adjust_severity cur severity = d"
    and "formatSemver (increment cur d) = v'"
  shows "resolution_view (applyVersionBump regexp_replace (summ\<lparr>summary_version := severity\<rparr>)
       (module\<lparr>version := v\<rparr>) (Some (old\<lparr>version := v\<rparr>)) denoJson)
     = (if regexp_replace (name module @ ''@([^~]?)'' @ v) (name module @ ''@$1'' @ v') denoJson = None
        then Inl RegExpSyntaxError else Inr (v, v', d))"
  using unchanged_version_general
    [of "old\<lparr>version := v\<rparr>" "module\<lparr>version := v\<rparr>" cur regexp_replace
        "summ\<lparr>summary_version := severity\<rparr>" denoJson] assms
  by (auto simp add: resolution_view_def split: option.splits)

lemma adjust_examples:
  "adjust_severity \<lparr>major = 1, minor = 2, patch = 3, prerelease = [], build = []\<rparr> Patch = Patch"
  "adjust_severity \<lparr>major = 0, minor = 5, patch = 0, prerelease = [], build = []\<rparr> Major = Minor"
  "adjust_severity \<lparr>major = 0, minor = 5, patch = 0, prerelease = [], build = []\<rparr> Minor = Patch"
  "adjust_severity \<lparr>major = 1, minor = 0, patch = 0,
       prerelease = [TextId ''rc'', NumericId 1], build = []\<rparr> severity = Prerelease"
  by (simp_all add: adjust_severity_def)

text \<open>
  Claim C2. For a module whose current version equals its prior snapshot version (and is
  a semantic version), the magnitude is the severity of the summary after the two
  adjustments (major to minor and minor to patch on a major component \<open>0\<close>; prerelease
  on a version with a prerelease), and the new version is the current version
  incremented by that magnitude; this is the result unless the pattern built from the
  name of the module is refused by \<open>new RegExp\<close>, in which case the code throws the
  \<open>SyntaxError\<close>. The four examples of the specification follow: patch on \<open>1.2.3\<close> gives
  \<open>1.2.4\<close>, major on \<open>0.5.0\<close> gives \<open>0.6.0\<close>, minor on \<open>0.5.0\<close> gives \<open>0.5.1\<close>, and every
  severity on \<open>1.0.0-rc.1\<close> gives \<open>1.0.0-rc.2\<close>.
\<close>

theorem unchanged_version_bump:
  "(version old = version module \<and> parseSemVer (version module) = Inr cur \<longrightarrow>
      applyVersionBump regexp_replace summ module (Some old) denoJson =
        (case regexp_replace (name module @ ''@([^~]?)'' @ version module)
                (name module @ ''@$1'' @
                   formatSemver (increment cur (adjust_severity cur (summary_version summ))))
                denoJson of
           None \<Rightarrow> Inl RegExpSyntaxError
         | Some denoJson' \<Rightarrow>
             Inr (denoJson',
                  \<lparr>from_version = version module,
                   to_version =
                     formatSemver (increment cur (adjust_severity cur (summary_version summ))),
                   diff = adjust_severity cur (summary_version summ),
                   result_path = path module,
                   summary =
                     summ\<lparr>summary_version := adjust_severity cur (summary_version summ)\<rparr>\<rparr>))) \<and>
   resolution_view (applyVersionBump regexp_replace (summ\<lparr>summary_version := Patch\<rparr>)
       (module\<lparr>version := ''1.2.3''\<rparr>) (Some (old\<lparr>version := ''1.2.3''\<rparr>)) denoJson)
     = (if regexp_replace (name module @ ''@([^~]?)'' @ ''1.2.3'')
             (name module @ ''@$1'' @ ''1.2.4'') denoJson = None
        then Inl RegExpSyntaxError else Inr (''1.2.3'', ''1.2.4'', Patch)) \<and>
   resolution_view (applyVersionBump regexp_replace (summ\<lparr>summary_version := Major\<rparr>)
       (module\<lparr>version := ''0.5.0''\<rparr>) (Some (old\<lparr>version := ''0.5.0''\<rparr>)) denoJson)
     = (if regexp_replace (name module @ ''@([^~]?)'' @ ''0.5.0'')
             (name module @ ''@$1'' @ ''0.6.0'') denoJson = None
        then Inl RegExpSyntaxError else Inr (''0.5.0'', ''0.6.0'', Minor)) \<and>
   resolution_view (applyVersionBump regexp_replace (summ\<lparr>summary_version := Minor\<rparr>)
       (module\<lparr>version := ''0.5.0''\<rparr>) (Some (old\<lparr>version := ''0.5.0''\<rparr>)) denoJson)
     = (if regexp_replace (name module @ ''@([^~]?)'' @ ''0.5.0'')
             (name module @ ''@$1'' @ ''0.5.1'') denoJson = None
        then Inl RegExpSyntaxError else Inr (''0.5.0'', ''0.5.1'', Patch)) \<and>
   resolution_view (applyVersionBump regexp_replace (summ\<lparr>summary_version := severity\<rparr>)
       (module\<lparr>version := ''1.0.0-rc.1''\<rparr>) (Some (old\<lparr>version := ''1.0.0-rc.1''\<rparr>)) denoJson)
     = (if regexp_replace (name module @ ''@([^~]?)'' @ ''1.0.0-rc.1'')
             (name module @ ''@$1'' @ ''1.0.0-rc.2'') denoJson = None
        then Inl RegExpSyntaxError else Inr (''1.0.0-rc.1'', ''1.0.0-rc.2'', Prerelease))"
proof -
  have g: "version old = version module \<and> parseSemVer (version module) = Inr cur \<longrightarrow>
      applyVersionBump regexp_replace summ module (Some old) denoJson =
        (case regexp_replace (name module @ ''@([^~]?)'' @ version module)
                (name module @ ''@$1'' @
                   formatSemver (increment cur (adjust_severity cur (summary_version summ))))
                denoJson of
           None \<Rightarrow> Inl RegExpSyntaxError
         | Some denoJson' \<Rightarrow>
             Inr (denoJson',
                  \<lparr>from_version = version module,
                   to_version =
                     formatSemver (increment cur (adjust_severity cur (summary_version summ))),
                   diff = adjust_severity cur (summary_version summ),
                   result_path = path module,
                   summary =
                     summ\<lparr>summary_version := adjust_severity cur (summary_version summ)\<rparr>\<rparr>))"
    using unchanged_version_general [of old module cur regexp_replace summ denoJson] by blast
  note e1 = unchanged_version_example
    [OF parse_1_2_3 adjust_examples(1) increment_examples(1)]
  note e2 = unchanged_version_example
    [OF parse_0_5_0 adjust_examples(2) increment_examples(2)]
  note e3 = unchanged_version_example
    [OF parse_0_5_0 adjust_examples(3) increment_examples(3)]
  note e4 = unchanged_version_example
    [OF parse_1_0_0_rc_1 adjust_examples(4) increment_examples(4)]
  show ?thesis by (rule conjI [OF g conjI [OF e1 conjI [OF e2 conjI [OF e3 e4]]]])
qed

text \<open>
  Major on \<open>0.5.0\<close>, with an import map in which the pattern does not occur: minor, and
  \<open>0.6.0\<close>.
\<close>

theorem unchanged_version_bump_witness:
  "applyVersionBump replace_without_match
      \<lparr>summary_module = ''foo'', summary_version = Major, summary_commits = []\<rparr>
      \<lparr>name = ''@scope/foo'', version = ''0.5.0'', path = ''foo/deno.json''\<rparr>
      (Some \<lparr>name = ''@scope/foo'', version = ''0.5.0'', path = ''foo/deno.json''\<rparr>) ''{}''
   = Inr (''{}'',
          \<lparr>from_version = ''0.5.0'', to_version = ''0.6.0'', diff = Minor,
           result_path = ''foo/deno.json'',
           summary = \<lparr>summary_module = ''foo'', summary_version = Minor, summary_commits = []\<rparr>\<rparr>)"
proof -
  let ?m = "\<lparr>name = ''@scope/foo'', version = ''0.5.0'', path = ''foo/deno.json''\<rparr>"
  let ?v = "\<lparr>major = 0, minor = 5, patch = 0, prerelease = [], build = []\<rparr>"
  let ?s = "\<lparr>summary_module = ''foo'', summary_version = Major, summary_commits = []\<rparr>"
  have h: "version ?m = version ?m \<and> parseSemVer (version ?m) = Inr ?v"
    by (simp add: parse_0_5_0)
  have a: "adjust_severity ?v (summary_version ?s) = Minor"
    by (simp add: adjust_severity_def)
  from unchanged_version_bump [of ?m ?m ?v replace_without_match ?s "''{}''"] h
  have "applyVersionBump replace_without_match ?s ?m (Some ?m) ''{}'' =
        (case replace_without_match (name ?m @ ''@([^~]?)'' @ version ?m)
                (name ?m @ ''@$1'' @
                   formatSemver (increment ?v (adjust_severity ?v (summary_version ?s))))
                ''{}'' of
           None \<Rightarrow> Inl RegExpSyntaxError
         | Some denoJson' \<Rightarrow>
             Inr (denoJson',
                  \<lparr>from_version = version ?m,
                   to_version =
                     formatSemver (increment ?v (adjust_severity ?v (summary_version ?s))),
                   diff = adjust_severity ?v (summary_version ?s),
                   result_path = path ?m,
                   summary = ?s\<lparr>summary_version := adjust_severity ?v (summary_version ?s)\<rparr>\<rparr>))"
    by blast
  then show ?thesis
    unfolding a
    by (simp add: increment_examples replace_without_match_def del: One_nat_def increment.simps)
qed

text \<open>
  The error path: where the engine refuses the pattern, the third branch throws, whatever
  the summary. (The pattern of a module named \<open>foo(\<close> is \<open>foo(@([^~]?)1.2.3\<close>.)
\<close>

lemma unchanged_version_syntax_error:
  assumes "\<And>template. regexp_replace (''foo(@([^~]?)1.2.3'') template denoJson = None"
  shows "applyVersionBump regexp_replace summ
           \<lparr>name = ''foo('', version = ''1.2.3'', path = p\<rparr>
           (Some \<lparr>name = ''foo('', version = ''1.2.3'', path = p\<rparr>) denoJson
         = Inl RegExpSyntaxError"
  using unchanged_version_general
    [of "\<lparr>name = ''foo('', version = ''1.2.3'', path = p\<rparr>"
        "\<lparr>name = ''foo('', version = ''1.2.3'', path = p\<rparr>"
        "\<lparr>major = 1, minor = 2, patch = 3, prerelease = [], build = []\<rparr>"
        regexp_replace summ denoJson]
    assms
  by (simp add: parse_1_2_3)

subsection \<open>A new module\<close>

lemma diff_against_zero:
  assumes "parseSemVer v = Inr n"
  shows "calcVersionDiff v ''0.0.0'' =
     (if prerelease n \<noteq> [] then Inr Prerelease
      else if major n \<noteq> 0 then Inr Major
      else if minor n \<noteq> 0 then Inr Minor
      else if patch n \<noteq> 0 then Inr Patch
      else Inl UnexpectedManualVersionUpdate)"
  using assms by (simp add: calcVersionDiff_def parse_0_0_0 hasPrerelease_def)

text \<open>
  Claim C6. For a module with no prior snapshot whose current version is a semantic
  version, the result has \<open>from = "0.0.0"\<close>, \<open>to\<close> the current version, the import map as it
  was, and as magnitude the diff of the current version against \<open>0.0.0\<close>: prerelease when
  the version carries a prerelease, else major when its major component is not zero,
  else minor when its minor component is not zero, else patch when its patch component
  is not zero (and no result, but the error, for \<open>0.0.0\<close>). This is the diff rule of the
  specification against the version \<open>0.0.0\<close>. The severity of the summary has no
  influence on the outcome. A new module at \<open>0.1.0\<close> gets the magnitude minor, one at
  \<open>2.0.0\<close> major, one at \<open>1.0.0-rc.1\<close> prerelease.
\<close>

theorem new_module_resolution:
  "(parseSemVer (version module) = Inr n \<longrightarrow>
      applyVersionBump regexp_replace summ module None denoJson =
        (if prerelease n = [] \<and> major n = 0 \<and> minor n = 0 \<and> patch n = 0
         then Inl UnexpectedManualVersionUpdate
         else Inr (denoJson,
                   \<lparr>from_version = ''0.0.0'', to_version = version module,
                    diff = (if prerelease n \<noteq> [] then Prerelease
                            else if major n \<noteq> 0 then Major
                            else if minor n \<noteq> 0 then Minor
                            else Patch),
                    result_path = path module,
                    summary = summ\<lparr>summary_version :=
                                (if prerelease n \<noteq> [] then Prerelease
                                 else if major n \<noteq> 0 then Major
                                 else if minor n \<noteq> 0 then Minor
                                 else Patch)\<rparr>\<rparr>)) \<and>
      map_sum id (\<lambda>r. diff (snd r)) (applyVersionBump regexp_replace summ module None denoJson) =
        (case spec_diff_rule n \<lparr>major = 0, minor = 0, patch = 0, prerelease = [], build = []\<rparr> of
           None \<Rightarrow> Inl UnexpectedManualVersionUpdate
         | Some d \<Rightarrow> Inr d)) \<and>
   (parseSemVer (version module) = Inl e \<longrightarrow>
      applyVersionBump regexp_replace summ module None denoJson = Inl e) \<and>
   applyVersionBump regexp_replace (summ\<lparr>summary_version := severity\<rparr>) module None denoJson
     = applyVersionBump regexp_replace summ module None denoJson \<and>
   resolution_view (applyVersionBump regexp_replace summ (module\<lparr>version := ''0.1.0''\<rparr>) None denoJson)
     = Inr (''0.0.0'', ''0.1.0'', Minor) \<and>
   resolution_view (applyVersionBump regexp_replace summ (module\<lparr>version := ''2.0.0''\<rparr>) None denoJson)
     = Inr (''0.0.0'', ''2.0.0'', Major) \<and>
   resolution_view (applyVersionBump regexp_replace summ (module\<lparr>version := ''1.0.0-rc.1''\<rparr>) None
       denoJson)
     = Inr (''0.0.0'', ''1.0.0-rc.1'', Prerelease)"
proof -
  have a: "parseSemVer (version module) = Inr n \<longrightarrow>
      applyVersionBump regexp_replace summ module None denoJson =
        (if prerelease n = [] \<and> major n = 0 \<and> minor n = 0 \<and> patch n = 0
         then Inl UnexpectedManualVersionUpdate
         else Inr (denoJson,
                   \<lparr>from_version = ''0.0.0'', to_version = version module,
                    diff = (if prerelease n \<noteq> [] then Prerelease
                            else if major n \<noteq> 0 then Major
                            else if minor n \<noteq> 0 then Minor
                            else Patch),
                    result_path = path module,
                    summary = summ\<lparr>summary_version :=
                                (if prerelease n \<noteq> [] then Prerelease
                                 else if major n \<noteq> 0 then Major
                                 else if minor n \<noteq> 0 then Minor
                                 else Patch)\<rparr>\<rparr>)) \<and>
      map_sum id (\<lambda>r. diff (snd r)) (applyVersionBump regexp_replace summ module None denoJson) =
        (case spec_diff_rule n \<lparr>major = 0, minor = 0, patch = 0, prerelease = [], build = []\<rparr> of
           None \<Rightarrow> Inl UnexpectedManualVersionUpdate
         | Some d \<Rightarrow> Inr d)"
  proof
    assume p: "parseSemVer (version module) = Inr n"
    show "applyVersionBump regexp_replace summ module None denoJson =
        (if prerelease n = [] \<and> major n = 0 \<and> minor n = 0 \<and> patch n = 0
         then Inl UnexpectedManualVersionUpdate
         else Inr (denoJson,
                   \<lparr>from_version = ''0.0.0'', to_version = version module,
                    diff = (if prerelease n \<noteq> [] then Prerelease
                            else if major n \<noteq> 0 then Major
                            else if minor n \<noteq> 0 then Minor
                            else Patch),
                    result_path = path module,
                    summary = summ\<lparr>summary_version :=
                                (if prerelease n \<noteq> [] then Prerelease
                                 else if major n \<noteq> 0 then Major
                                 else if minor n \<noteq> 0 then Minor
                                 else Patch)\<rparr>\<rparr>)) \<and>
      map_sum id (\<lambda>r. diff (snd r)) (applyVersionBump regexp_replace summ module None denoJson) =
        (case spec_diff_rule n \<lparr>major = 0, minor = 0, patch = 0, prerelease = [], build = []\<rparr> of
           None \<Rightarrow> Inl UnexpectedManualVersionUpdate
         | Some d \<Rightarrow> Inr d)"
      by (simp add: applyVersionBump_def diff_against_zero [OF p] spec_diff_rule_def)
  qed
  have b: "parseSemVer (version module) = Inl e \<longrightarrow>
      applyVersionBump regexp_replace summ module None denoJson = Inl e"
    by (simp add: applyVersionBump_def calcVersionDiff_def)
  have c: "applyVersionBump regexp_replace (summ\<lparr>summary_version := severity\<rparr>) module None denoJson
     = applyVersionBump regexp_replace summ module None denoJson"
    by (simp add: applyVersionBump_def split: sum.splits)
  have e1: "resolution_view
       (applyVersionBump regexp_replace summ (module\<lparr>version := ''0.1.0''\<rparr>) None denoJson)
     = Inr (''0.0.0'', ''0.1.0'', Minor)"
    by (simp add: applyVersionBump_def diff_against_zero [OF parse_0_1_0] resolution_view_def)
  have e2: "resolution_view
       (applyVersionBump regexp_replace summ (module\<lparr>version := ''2.0.0''\<rparr>) None denoJson)
     = Inr (''0.0.0'', ''2.0.0'', Major)"
    by (simp add: applyVersionBump_def diff_against_zero [OF parse_2_0_0] resolution_view_def)
  have e3: "resolution_view
       (applyVersionBump regexp_replace summ (module\<lparr>version := ''1.0.0-rc.1''\<rparr>) None denoJson)
     = Inr (''0.0.0'', ''1.0.0-rc.1'', Prerelease)"
    by (simp add: applyVersionBump_def diff_against_zero [OF parse_1_0_0_rc_1] resolution_view_def)
  show ?thesis by (rule conjI [OF a conjI [OF b conjI [OF c conjI [OF e1 conjI [OF e2 e3]]]]])
qed

text \<open>A new module at \<open>2.0.0\<close>: the magnitude is major, whatever the severity of the summary.\<close>

theorem new_module_resolution_witness:
  "applyVersionBump replace_without_match
      \<lparr>summary_module = ''foo'', summary_version = Patch, summary_commits = []\<rparr>
      \<lparr>name = ''@scope/foo'', version = ''2.0.0'', path = ''foo/deno.jsonc''\<rparr> None ''{}''
   = Inr (''{}'',
          \<lparr>from_version = ''0.0.0'', to_version = ''2.0.0'', diff = Major,
           result_path = ''foo/deno.jsonc'',
           summary = \<lparr>summary_module = ''foo'', summary_version = Major, summary_commits = []\<rparr>\<rparr>)"
proof -
  let ?s = "\<lparr>summary_module = ''foo'', summary_version = Patch, summary_commits = []\<rparr>"
  let ?m = "\<lparr>name = ''@scope/foo'', version = ''2.0.0'', path = ''foo/deno.jsonc''\<rparr>"
  let ?n = "\<lparr>major = 2, minor = 0, patch = 0, prerelease = [], build = []\<rparr>"
  have p: "parseSemVer (version ?m) = Inr ?n" by (simp add: parse_2_0_0)
  from new_module_resolution [of ?m ?n replace_without_match ?s "''{}''"] p
  have "applyVersionBump replace_without_match ?s ?m None ''{}'' =
        (if prerelease ?n = [] \<and> major ?n = 0 \<and> minor ?n = 0 \<and> patch ?n = 0
         then Inl UnexpectedManualVersionUpdate
         else Inr (''{}'',
                   \<lparr>from_version = ''0.0.0'', to_version = version ?m,
                    diff = (if prerelease ?n \<noteq> [] then Prerelease
                            else if major ?n \<noteq> 0 then Major
                            else if minor ?n \<noteq> 0 then Minor
                            else Patch),
                    result_path = path ?m,
                    summary = ?s\<lparr>summary_version :=
                                (if prerelease ?n \<noteq> [] then Prerelease
                                 else if major ?n \<noteq> 0 then Major
                                 else if minor ?n \<noteq> 0 then Minor
                                 else Patch)\<rparr>\<rparr>))"
    by blast
  then show ?thesis by simp
qed

text \<open>
  Claim C10. A module with no prior snapshot whose current version is \<open>0.0.0\<close> gets no
  resolution: the diff of \<open>0.0.0\<close> against \<open>0.0.0\<close> is in no case of \<open>calcVersionDiff\<close>, and
  \<open>applyVersionBump\<close> throws its error.
\<close>

theorem new_module_at_zero_raises:
  "calcVersionDiff ''0.0.0'' ''0.0.0'' = Inl UnexpectedManualVersionUpdate \<and>
   applyVersionBump regexp_replace summ (module\<lparr>version := ''0.0.0''\<rparr>) None denoJson
     = Inl UnexpectedManualVersionUpdate"
  by (simp add: applyVersionBump_def calcVersionDiff_def parse_0_0_0 hasPrerelease_def)

theorem new_module_at_zero_raises_witness:
  "applyVersionBump replace_without_match
      \<lparr>summary_module = ''foo'', summary_version = Minor, summary_commits = []\<rparr>
      \<lparr>name = ''@scope/foo'', version = ''0.0.0'', path = ''foo/deno.json''\<rparr> None ''{}''
   = Inl UnexpectedManualVersionUpdate"
  using new_module_at_zero_raises
    [of replace_without_match
        "\<lparr>summary_module = ''foo'', summary_version = Minor, summary_commits = []\<rparr>"
        "\<lparr>name = ''@scope/foo'', version = ''0.0.0'', path = ''foo/deno.json''\<rparr>" "''{}''"]
  by simp

section \<open>Properties of the regular expressions\<close>

subsection \<open>Derivatives decide the language\<close>

lemma star_lang_Cons:
  "c # v \<in> star_lang A \<longleftrightarrow> (\<exists>u w. v = u @ w \<and> c # u \<in> A \<and> w \<in> star_lang A)"
proof
  assume "c # v \<in> star_lang A"
  then have "\<And>x. x \<in> star_lang A \<Longrightarrow> x = c # v \<Longrightarrow> \<exists>u w. v = u @ w \<and> c # u \<in> A \<and> w \<in> star_lang A"
  proof -
    fix x assume "x \<in> star_lang A" and "x = c # v"
    then show "\<exists>u w. v = u @ w \<and> c # u \<in> A \<and> w \<in> star_lang A"
    proof (induction rule: star_lang.induct)
      case star_empty
      then show ?case by simp
    next
      case (star_step u w)
      show ?case
      proof (cases u)
        case Nil
        with star_step show ?thesis by simp
      next
        case (Cons a u')
        with star_step.prems have "a = c" and "v = u' @ w" by simp_all
        with Cons star_step.hyps show ?thesis by blast
      qed
    qed
  qed
  with \<open>c # v \<in> star_lang A\<close> show "\<exists>u w. v = u @ w \<and> c # u \<in> A \<and> w \<in> star_lang A" by blast
next
  assume "\<exists>u w. v = u @ w \<and> c # u \<in> A \<and> w \<in> star_lang A"
  then obtain u w where "v = u @ w" "c # u \<in> A" "w \<in> star_lang A" by blast
  then show "c # v \<in> star_lang A"
    using star_step [of "c # u" A w] by simp
qed

lemma nullable_iff: "nullable r \<longleftrightarrow> [] \<in> lang r"
  by (induction r) (auto intro: star_empty)

lemma lang_seqI: "u \<in> lang r \<Longrightarrow> w \<in> lang s \<Longrightarrow> u @ w \<in> lang (RSeq r s)"
  unfolding lang.simps by blast

lemma lang_deriv: "v \<in> lang (deriv c r) \<longleftrightarrow> c # v \<in> lang r"
proof (induction r arbitrary: v)
  case (RSeq r s)
  show ?case
  proof
    assume "v \<in> lang (deriv c (RSeq r s))"
    then consider (left) "v \<in> lang (RSeq (deriv c r) s)" | (right) "nullable r" "v \<in> lang (deriv c s)"
      by (auto split: if_splits)
    then show "c # v \<in> lang (RSeq r s)"
    proof cases
      case left
      then obtain u w where "v = u @ w" "u \<in> lang (deriv c r)" "w \<in> lang s" by auto
      then have "c # v = (c # u) @ w" "c # u \<in> lang r" using RSeq.IH(1) by simp_all
      with \<open>w \<in> lang s\<close> show ?thesis using lang_seqI [of "c # u" r w s] by simp
    next
      case right
      then have "[] \<in> lang r" "c # v \<in> lang s" using RSeq.IH(2) nullable_iff by simp_all
      then show ?thesis using lang_seqI [of "[]" r "c # v" s] by simp
    qed
  next
    assume "c # v \<in> lang (RSeq r s)"
    then obtain u w where uw: "c # v = u @ w" "u \<in> lang r" "w \<in> lang s" by auto
    show "v \<in> lang (deriv c (RSeq r s))"
    proof (cases u)
      case Nil
      with uw have "nullable r" "v \<in> lang (deriv c s)" using RSeq.IH(2) nullable_iff by simp_all
      then show ?thesis by simp
    next
      case (Cons a u')
      with uw have "v = u' @ w" "u' \<in> lang (deriv c r)" using RSeq.IH(1) by simp_all
      with uw(3) have "v \<in> lang (RSeq (deriv c r) s)" using lang_seqI by blast
      then show ?thesis by simp
    qed
  qed
next
  case (RStar r)
  show ?case
    by (auto simp add: star_lang_Cons RStar.IH)
qed auto

lemma matches_iff_lang: "matches r s \<longleftrightarrow> s \<in> lang r"
  by (induction s arbitrary: r) (simp_all add: nullable_iff lang_deriv)

lemma star_lang_chars: "star_lang {[c] | c. P c} = {w. list_all P w}"
proof (rule set_eqI, rule iffI)
  fix w assume "w \<in> star_lang {[c] | c. P c}"
  then show "w \<in> {w. list_all P w}"
    by (induction rule: star_lang.induct) auto
next
  fix w assume "w \<in> {w. list_all P w}"
  then have "list_all P w" by simp
  then show "w \<in> star_lang {[c] | c. P c}"
  proof (induction w)
    case Nil
    show ?case by (rule star_empty)
  next
    case (Cons a w)
    then have "[a] \<in> {[c] | c. P c}" "w \<in> star_lang {[c] | c. P c}" by auto
    then show ?case using star_step [of "[a]" _ w] by simp
  qed
qed

lemma lang_star_class: "lang (RStar (RChar P)) = {w. list_all P w}"
  by (simp add: star_lang_chars)

lemma lang_plus_class: "lang (RPlus (RChar P)) = {w. w \<noteq> [] \<and> list_all P w}"
proof (rule set_eqI)
  fix w
  show "w \<in> lang (RPlus (RChar P)) \<longleftrightarrow> w \<in> {w. w \<noteq> [] \<and> list_all P w}"
  proof (cases w)
    case Nil
    then show ?thesis by (simp add: RPlus_def)
  next
    case (Cons a w')
    have "a # w' \<in> lang (RPlus (RChar P)) \<longleftrightarrow> P a \<and> list_all P w'"
    proof
      assume "a # w' \<in> lang (RPlus (RChar P))"
      then obtain c v where "a # w' = [c] @ v" "P c" "list_all P v"
        by (auto simp add: RPlus_def star_lang_chars)
      then show "P a \<and> list_all P w'" by simp
    next
      assume "P a \<and> list_all P w'"
      then have "[a] \<in> lang (RChar P)" "w' \<in> lang (RStar (RChar P))"
        by (simp_all add: star_lang_chars)
      then show "a # w' \<in> lang (RPlus (RChar P))"
        unfolding RPlus_def using lang_seqI [of "[a]" "RChar P" w' "RStar (RChar P)"] by simp
    qed
    with Cons show ?thesis by simp
  qed
qed

lemma lang_lit: "lang (RLit c) = {[c]}"
  by (auto simp add: RLit_def)

lemma take1_drop1: "take 1 r = [c] \<Longrightarrow> drop 1 r \<noteq> [] \<Longrightarrow> r = c # hd (drop 1 r) # drop 2 r"
  by (cases r) (auto simp add: neq_Nil_conv)

lemma take2_drop2: "take 2 r = [c, d] \<Longrightarrow> r = c # d # drop 2 r"
  by (cases r; cases "tl r") auto


lemma split_last_close_SomeD:
  "split_last_close r = Some (a, b) \<Longrightarrow> r = a @ ''): '' @ b"
proof (induction r arbitrary: a b)
  case Nil
  then show ?case by simp
next
  case (Cons c cs)
  show ?case
  proof (cases "split_last_close cs")
    case None
    with Cons.prems have c: "c = CHR '')''" "take 2 cs = '': ''" "a = []" "b = drop 2 cs"
      by (auto split: if_splits)
    with take2_drop2 [of cs] show ?thesis by simp
  next
    case (Some ab)
    obtain a0 b0 where ab: "ab = (a0, b0)" by (cases ab)
    with Some Cons.prems have "a = c # a0" "b = b0" by simp_all
    with Cons.IH [of a0 b0] Some ab show ?thesis by simp
  qed
qed

lemma split_last_close_complete: "split_last_close (a @ ''): '' @ b) \<noteq> None"
  by (induction a) (auto split: option.splits)

lemma split_last_close_last:
  "split_last_close r = Some (a, b) \<Longrightarrow> r = a' @ ''): '' @ b' \<Longrightarrow> length a' \<le> length a"
proof (induction r arbitrary: a a')
  case Nil
  then show ?case by simp
next
  case (Cons c cs)
  show ?case
  proof (cases a')
    case Nil
    then show ?thesis by simp
  next
    case (Cons d a'')
    with Cons.prems(2) have cs: "cs = a'' @ ''): '' @ b'" by simp
    then have "split_last_close cs \<noteq> None" using split_last_close_complete by simp
    then obtain a0 b0 where s: "split_last_close cs = Some (a0, b0)" by auto
    with Cons.prems(1) have "a = c # a0" "b = b0" by simp_all
    moreover from Cons.IH [of a0 a''] s cs \<open>b = b0\<close> have "length a'' \<le> length a0" by simp
    ultimately show ?thesis using Cons by simp
  qed
qed


lemma exec_SomeD:
  assumes "RE_DEFAULT_PATTERN_exec s = Some m"
  shows "s = group1 m @ scope_text (group2 m) @ '': '' @ group3 m"
    and "group1 m \<noteq> []" and "list_all tag_char (group1 m)"
    and "list_all dot_char (group3 m)"
    and "\<And>x. group2 m = Some x \<Longrightarrow> x \<noteq> [] \<and> list_all dot_char x"
proof -
  let ?g = "takeWhile tag_char s" and ?r = "dropWhile tag_char s"
  have s: "s = ?g @ ?r" by simp
  have g: "list_all tag_char ?g" by (simp add: list_all_iff) (meson set_takeWhileD)
  from assms have ne: "?g \<noteq> []"
    by (auto simp add: RE_DEFAULT_PATTERN_exec_def Let_def split: if_splits)
  consider (plain) "take 2 ?r = '': ''" "list_all dot_char (drop 2 ?r)"
      "m = \<lparr>group1 = ?g, group2 = None, group3 = drop 2 ?r\<rparr>"
    | (scoped) a b where "take 2 ?r \<noteq> '': ''" "take 1 ?r = ''(''" "drop 1 ?r \<noteq> []"
      "split_last_close (drop 2 ?r) = Some (a, b)"
      "list_all dot_char (hd (drop 1 ?r) # a)" "list_all dot_char b"
      "m = \<lparr>group1 = ?g, group2 = Some (hd (drop 1 ?r) # a), group3 = b\<rparr>"
    using assms ne
    by (auto simp add: RE_DEFAULT_PATTERN_exec_def Let_def split: if_splits option.splits)
  then have "s = group1 m @ scope_text (group2 m) @ '': '' @ group3 m \<and> group1 m \<noteq> [] \<and>
     list_all tag_char (group1 m) \<and> list_all dot_char (group3 m) \<and>
     (\<forall>x. group2 m = Some x \<longrightarrow> x \<noteq> [] \<and> list_all dot_char x)"
  proof cases
    case plain
    from plain(1) have "?r = '': '' @ drop 2 ?r" using take2_drop2 [of ?r] by simp
    with s have "s = ?g @ '': '' @ drop 2 ?r" by metis
    with plain g ne show ?thesis by (simp add: scope_text_def)
  next
    case scoped
    have "?r = ''('' @ hd (drop 1 ?r) # drop 2 ?r"
      using take1_drop1 [OF _ scoped(3), of "CHR ''(''"] scoped(2) by simp
    moreover have "drop 2 ?r = a @ ''): '' @ b" using split_last_close_SomeD [OF scoped(4)] .
    ultimately have "?r = ''('' @ (hd (drop 1 ?r) # a) @ ''): '' @ b" by simp
    with s have "s = ?g @ ''('' @ (hd (drop 1 ?r) # a) @ ''): '' @ b" by metis
    with scoped g ne show ?thesis by (simp add: scope_text_def)
  qed
  then show "s = group1 m @ scope_text (group2 m) @ '': '' @ group3 m"
    and "group1 m \<noteq> []" and "list_all tag_char (group1 m)"
    and "list_all dot_char (group3 m)"
    and "\<And>x. group2 m = Some x \<Longrightarrow> x \<noteq> [] \<and> list_all dot_char x"
    by blast+
qed

lemma takeWhile_tag:
  assumes "list_all tag_char t" and "\<not> tag_char c"
  shows "takeWhile tag_char (t @ c # r) = t" and "dropWhile tag_char (t @ c # r) = c # r"
  using assms by (simp_all add: list_all_iff takeWhile_append2 dropWhile_append2)

lemma exec_plain:
  assumes "t \<noteq> []" "list_all tag_char t" "list_all dot_char msg"
  shows "RE_DEFAULT_PATTERN_exec (t @ '': '' @ msg) = Some \<lparr>group1 = t, group2 = None, group3 = msg\<rparr>"
proof -
  have "\<not> tag_char CHR '':''" by (simp add: tag_char_def)
  with assms(2) have "takeWhile tag_char (t @ CHR '':'' # CHR '' '' # msg) = t"
    "dropWhile tag_char (t @ CHR '':'' # CHR '' '' # msg) = CHR '':'' # CHR '' '' # msg"
    by (rule takeWhile_tag)+
  with assms show ?thesis by (simp add: RE_DEFAULT_PATTERN_exec_def)
qed

lemma exec_scoped:
  assumes "t \<noteq> []" "list_all tag_char t" "x \<noteq> []" "list_all dot_char x" "list_all dot_char msg"
  shows "\<exists>y z. RE_DEFAULT_PATTERN_exec (t @ ''('' @ x @ ''): '' @ msg) =
           Some \<lparr>group1 = t, group2 = Some y, group3 = z\<rparr> \<and> length x \<le> length y"
proof -
  obtain c x' where x: "x = c # x'" using assms(3) by (cases x) auto
  let ?rest = "CHR ''('' # c # x' @ ''): '' @ msg"
  have "\<not> tag_char CHR ''(''" by (simp add: tag_char_def)
  with assms(2) have tw: "takeWhile tag_char (t @ ?rest) = t" "dropWhile tag_char (t @ ?rest) = ?rest"
    by (rule takeWhile_tag)+
  obtain a b where ab: "split_last_close (x' @ ''): '' @ msg) = Some (a, b)"
    using split_last_close_complete [of x' msg] by auto
  have eq: "x' @ ''): '' @ msg = a @ ''): '' @ b" using split_last_close_SomeD [OF ab] .
  have len: "length x' \<le> length a" using split_last_close_last [OF ab, of x' msg] by simp
  have "list_all dot_char (x' @ ''): '' @ msg)"
    using assms(4,5) x by (simp add: dot_char_def)
  with eq have "list_all dot_char (a @ ''): '' @ b)" by simp
  then have d: "list_all dot_char a" "list_all dot_char b" by simp_all
  have c: "dot_char c" using assms(4) x by simp
  have "RE_DEFAULT_PATTERN_exec (t @ ?rest) = Some \<lparr>group1 = t, group2 = Some (c # a), group3 = b\<rparr>"
    using assms(1) tw ab d c by (simp add: RE_DEFAULT_PATTERN_exec_def)
  with x len show ?thesis by auto
qed

lemma lang_tail: "lang (RSeq (RLit CHR '':'') (RSeq (RLit CHR '' '') (RStar (RChar dot_char)))) =
   {'': '' @ msg | msg. list_all dot_char msg}"
  by (auto simp add: lang_lit star_lang_chars)

lemma lang_scope: "lang (RSeq (RLit CHR ''('') (RSeq (RPlus (RChar P)) (RLit CHR '')''))) =
   {''('' @ x @ '')'' | x. x \<noteq> [] \<and> list_all P x}"
  unfolding lang.simps(4) [of "RLit CHR ''(''"] lang.simps(4) [of "RPlus (RChar P)"] lang_lit lang_plus_class
  by auto

lemma lang_commit_pattern:
  "s \<in> lang (RSeq (RPlus (RChar tag_char))
       (RSeq (ROpt (RSeq (RLit CHR ''('') (RSeq (RPlus (RChar P)) (RLit CHR '')''))))
         (RSeq (RLit CHR '':'') (RSeq (RLit CHR '' '') (RStar (RChar dot_char)))))) \<longleftrightarrow>
   (\<exists>t g msg. s = t @ scope_text g @ '': '' @ msg \<and> t \<noteq> [] \<and> list_all tag_char t \<and>
      list_all dot_char msg \<and> (\<forall>x. g = Some x \<longrightarrow> x \<noteq> [] \<and> list_all P x))"
  (is "s \<in> lang (RSeq ?T (RSeq (ROpt ?S) ?M)) \<longleftrightarrow> ?rhs")
proof
  assume "s \<in> lang (RSeq ?T (RSeq (ROpt ?S) ?M))"
  then obtain t sc tl where d: "s = t @ sc @ tl" "t \<in> lang ?T" "sc \<in> lang (ROpt ?S)" "tl \<in> lang ?M"
    unfolding lang.simps(4) [of ?T] lang.simps(4) [of "ROpt ?S"] by blast
  from d(2) have t: "t \<noteq> [] \<and> list_all tag_char t" by (simp add: lang_plus_class)
  from d(4) obtain msg where msg: "tl = '': '' @ msg" "list_all dot_char msg"
    unfolding lang_tail by blast
  from d(3) have "sc = [] \<or> sc \<in> lang ?S" by (auto simp add: ROpt_def)
  then obtain g where g: "sc = scope_text g" "\<forall>x. g = Some x \<longrightarrow> x \<noteq> [] \<and> list_all P x"
  proof
    assume "sc = []"
    then have "sc = scope_text None" by (simp add: scope_text_def)
    then show ?thesis using that by blast
  next
    assume "sc \<in> lang ?S"
    then obtain x where "sc = ''('' @ x @ '')''" "x \<noteq> []" "list_all P x"
      unfolding lang_scope by blast
    then have "sc = scope_text (Some x)" by (simp add: scope_text_def)
    with \<open>x \<noteq> []\<close> \<open>list_all P x\<close> show ?thesis using that by blast
  qed
  from d(1) msg(1) g(1) have "s = t @ scope_text g @ '': '' @ msg" by simp
  with t msg(2) g(2) show ?rhs by blast
next
  assume ?rhs
  then obtain t g msg where d: "s = t @ scope_text g @ '': '' @ msg" "t \<noteq> []" "list_all tag_char t"
      "list_all dot_char msg" "\<forall>x. g = Some x \<longrightarrow> x \<noteq> [] \<and> list_all P x"
    by blast
  have t: "t \<in> lang ?T" using d(2,3) by (simp add: lang_plus_class)
  have m: "'': '' @ msg \<in> lang ?M" unfolding lang_tail using d(4) by blast
  have "scope_text g \<in> lang (ROpt ?S)"
  proof (cases g)
    case None
    then show ?thesis by (simp add: scope_text_def ROpt_def)
  next
    case (Some x)
    with d(5) have "''('' @ x @ '')'' \<in> lang ?S" unfolding lang_scope by blast
    with Some show ?thesis by (simp add: scope_text_def ROpt_def)
  qed
  with t m have "t @ scope_text g @ '': '' @ msg \<in> lang (RSeq ?T (RSeq (ROpt ?S) ?M))"
    using lang_seqI by blast
  with d(1) show "s \<in> lang (RSeq ?T (RSeq (ROpt ?S) ?M))" by simp
qed

lemma exec_iff_lang: "RE_DEFAULT_PATTERN_exec s \<noteq> None \<longleftrightarrow> s \<in> lang RE_DEFAULT_PATTERN"
proof
  assume "RE_DEFAULT_PATTERN_exec s \<noteq> None"
  then obtain m where m: "RE_DEFAULT_PATTERN_exec s = Some m" by auto
  from exec_SomeD [OF m] show "s \<in> lang RE_DEFAULT_PATTERN"
    unfolding RE_DEFAULT_PATTERN_def lang_commit_pattern by blast
next
  assume "s \<in> lang RE_DEFAULT_PATTERN"
  then obtain t g msg where d: "s = t @ scope_text g @ '': '' @ msg" "t \<noteq> []" "list_all tag_char t"
      "list_all dot_char msg" "\<forall>x. g = Some x \<longrightarrow> x \<noteq> [] \<and> list_all dot_char x"
    unfolding RE_DEFAULT_PATTERN_def lang_commit_pattern by blast
  show "RE_DEFAULT_PATTERN_exec s \<noteq> None"
  proof (cases g)
    case None
    with d exec_plain [of t msg] show ?thesis by (simp add: scope_text_def)
  next
    case (Some x)
    with d exec_scoped [of t x msg] show ?thesis by (auto simp add: scope_text_def)
  qed
qed

lemma exec_greedy:
  assumes "RE_DEFAULT_PATTERN_exec s = Some m"
    and "s = t @ ''('' @ x @ ''): '' @ msg" and "t \<noteq> []" and "list_all tag_char t"
    and "x \<noteq> []" and "list_all dot_char x" and "list_all dot_char msg"
  shows "group1 m = t \<and> (\<exists>y. group2 m = Some y \<and> length x \<le> length y)"
  using exec_scoped [OF assms(3-7)] assms(1,2) by auto

section \<open>Properties of the commit classifier\<close>

lemma split_at_nonempty: "split_at d s \<noteq> []"
  by (induction s) (auto split: list.splits)

lemma trim_pieces_nonempty: "ps \<noteq> [] \<Longrightarrow> trim_pieces f ps \<noteq> []"
  by (induction f ps rule: trim_pieces.induct) auto

lemma split_scopes_nonempty: "split_scopes s \<noteq> []"
  by (simp add: split_scopes_def split_at_nonempty trim_pieces_nonempty)

lemma required_in_table: "set DEFAULT_RANGE_REQUIRED \<subseteq> set TAG_PRIORITY"
  by (simp add: DEFAULT_RANGE_REQUIRED_def TAG_PRIORITY_def TAG_TO_VERSION_def)

lemma TAG_TO_VERSION_get_unknown:
  "t \<notin> set TAG_PRIORITY \<Longrightarrow> t \<notin> set Object_prototype_keys \<Longrightarrow> TAG_TO_VERSION_get t = Undefined"
  by (simp add: TAG_TO_VERSION_get_def TAG_PRIORITY_def map_of_eq_None_iff [THEN iffD2])

lemma TAG_TO_VERSION_get_known:
  "t \<in> set TAG_PRIORITY \<Longrightarrow> \<exists>v. (t, v) \<in> set TAG_TO_VERSION \<and> TAG_TO_VERSION_get t = Version v"
proof -
  assume "t \<in> set TAG_PRIORITY"
  then have "map_of TAG_TO_VERSION t \<noteq> None"
    by (simp add: TAG_PRIORITY_def map_of_eq_None_iff)
  then obtain v where v: "map_of TAG_TO_VERSION t = Some v" by auto
  then have "(t, v) \<in> set TAG_TO_VERSION" by (rule map_of_SomeD)
  with v show ?thesis by (auto simp add: TAG_TO_VERSION_get_def)
qed

lemma classify_no_match:
  "RE_DEFAULT_PATTERN_exec (subject commit) = None \<Longrightarrow>
   defaultParseCommitMessage commit ws =
     Inl (UnknownCommit commit ''The commit message does not match the default pattern.'')"
  by (simp add: defaultParseCommitMessage_def)

lemma classify_match_not_pattern_diagnostic:
  "RE_DEFAULT_PATTERN_exec (subject commit) = Some m \<Longrightarrow>
   defaultParseCommitMessage commit ws \<noteq>
     Inl (UnknownCommit commit ''The commit message does not match the default pattern.'')"
  by (simp add: defaultParseCommitMessage_def Let_def)

lemma classify_no_scope:
  assumes "RE_DEFAULT_PATTERN_exec (subject commit) = Some m" and "group2 m = None"
  shows "defaultParseCommitMessage commit ws =
     Inl (if group1 m \<in> set DEFAULT_RANGE_REQUIRED
          then MissingRange commit ''The commit message does not specify a module.''
          else SkippedCommit commit ''The commit message does not specify a module.'')"
  using assms by (simp add: defaultParseCommitMessage_def Let_def)

lemma classify_wildcard:
  assumes "RE_DEFAULT_PATTERN_exec (subject commit) = Some m" and "group2 m = Some ''*''"
  shows "defaultParseCommitMessage commit ws =
     (if ws = [] then
        Inl (if group1 m \<in> set DEFAULT_RANGE_REQUIRED
             then MissingRange commit ''The commit message does not specify a module.''
             else SkippedCommit commit ''The commit message does not specify a module.'')
      else if TAG_TO_VERSION_get (group1 m) = Undefined then
        Inl (UnknownCommit commit (''Unknown commit tag: '' @ group1 m @ ''.''))
      else Inr (map (\<lambda>w. \<lparr>bump_module = name w, bump_tag = group1 m, bump_commit = commit,
                          bump_version = TAG_TO_VERSION_get (group1 m)\<rparr>) ws))"
  using assms by (simp add: defaultParseCommitMessage_def Let_def comp_def)

lemma classify_scopes:
  assumes "RE_DEFAULT_PATTERN_exec (subject commit) = Some m" and "group2 m = Some x" and "x \<noteq> ''*''"
  shows "defaultParseCommitMessage commit ws =
     (if TAG_TO_VERSION_get (group1 m) = Undefined then
        Inl (UnknownCommit commit (''Unknown commit tag: '' @ group1 m @ ''.''))
      else Inr (map (\<lambda>r. \<lparr>bump_module = r, bump_tag = group1 m, bump_commit = commit,
                          bump_version = TAG_TO_VERSION_get (group1 m)\<rparr>) (split_scopes x)))"
proof -
  from exec_SomeD(5) [OF assms(1,2)] have "x \<noteq> []" by simp
  with assms show ?thesis
    by (simp add: defaultParseCommitMessage_def Let_def split_scopes_nonempty)
qed

text \<open>
  Claim C3, as amended. The classifier recognizes a subject exactly when the subject
  matches \<open>^([^:()]+)(?:\((.+)\))?: (.*)$\<close>, the pattern of the code, in which the scope
  list is \<open>.+\<close> and not \<open>[^)]+\<close>. On a match group 1 is the kind token (not empty, without
  \<open>:\<close>, \<open>(\<close> and \<open>)\<close>), group 2, when present, is the text between the first \<open>(\<close> and the
  last \<open>): \<close> of the subject (not empty, without line terminators, and the longest such
  text), and group 3 is the description. A subject that does not match yields the
  diagnostic \<open>unknown_commit\<close> "does not match the default pattern", and no other subject
  yields it.
\<close>

theorem commit_pattern_recognition:
  "(RE_DEFAULT_PATTERN_exec (subject commit) \<noteq> None \<longleftrightarrow> matches RE_DEFAULT_PATTERN (subject commit)) \<and>
   (\<forall>m. RE_DEFAULT_PATTERN_exec (subject commit) = Some m \<longrightarrow>
      subject commit = group1 m @ scope_text (group2 m) @ '': '' @ group3 m \<and>
      group1 m \<noteq> [] \<and> list_all tag_char (group1 m) \<and> list_all dot_char (group3 m) \<and>
      (\<forall>x. group2 m = Some x \<longrightarrow> x \<noteq> [] \<and> list_all dot_char x) \<and>
      (\<forall>t x msg. subject commit = t @ ''('' @ x @ ''): '' @ msg \<and> t \<noteq> [] \<and> list_all tag_char t \<and>
          x \<noteq> [] \<and> list_all dot_char x \<and> list_all dot_char msg \<longrightarrow>
          (\<exists>y. group2 m = Some y \<and> length x \<le> length y))) \<and>
   (defaultParseCommitMessage commit ws =
      Inl (UnknownCommit commit ''The commit message does not match the default pattern.'')
    \<longleftrightarrow> \<not> matches RE_DEFAULT_PATTERN (subject commit))"
proof -
  have a: "RE_DEFAULT_PATTERN_exec (subject commit) \<noteq> None \<longleftrightarrow> matches RE_DEFAULT_PATTERN (subject commit)"
    using exec_iff_lang [of "subject commit"] matches_iff_lang [of RE_DEFAULT_PATTERN "subject commit"]
    by blast
  have b: "\<forall>m. RE_DEFAULT_PATTERN_exec (subject commit) = Some m \<longrightarrow>
      subject commit = group1 m @ scope_text (group2 m) @ '': '' @ group3 m \<and>
      group1 m \<noteq> [] \<and> list_all tag_char (group1 m) \<and> list_all dot_char (group3 m) \<and>
      (\<forall>x. group2 m = Some x \<longrightarrow> x \<noteq> [] \<and> list_all dot_char x) \<and>
      (\<forall>t x msg. subject commit = t @ ''('' @ x @ ''): '' @ msg \<and> t \<noteq> [] \<and> list_all tag_char t \<and>
          x \<noteq> [] \<and> list_all dot_char x \<and> list_all dot_char msg \<longrightarrow>
          (\<exists>y. group2 m = Some y \<and> length x \<le> length y))"
  proof (rule allI, rule impI)
    fix m assume m: "RE_DEFAULT_PATTERN_exec (subject commit) = Some m"
    have g: "\<forall>t x msg. subject commit = t @ ''('' @ x @ ''): '' @ msg \<and> t \<noteq> [] \<and> list_all tag_char t \<and>
          x \<noteq> [] \<and> list_all dot_char x \<and> list_all dot_char msg \<longrightarrow>
          (\<exists>y. group2 m = Some y \<and> length x \<le> length y)"
      using exec_greedy [OF m] by blast
    have d: "\<forall>x. group2 m = Some x \<longrightarrow> x \<noteq> [] \<and> list_all dot_char x"
      using exec_SomeD(5) [OF m] by blast
    show "subject commit = group1 m @ scope_text (group2 m) @ '': '' @ group3 m \<and>
      group1 m \<noteq> [] \<and> list_all tag_char (group1 m) \<and> list_all dot_char (group3 m) \<and>
      (\<forall>x. group2 m = Some x \<longrightarrow> x \<noteq> [] \<and> list_all dot_char x) \<and>
      (\<forall>t x msg. subject commit = t @ ''('' @ x @ ''): '' @ msg \<and> t \<noteq> [] \<and> list_all tag_char t \<and>
          x \<noteq> [] \<and> list_all dot_char x \<and> list_all dot_char msg \<longrightarrow>
          (\<exists>y. group2 m = Some y \<and> length x \<le> length y))"
      using exec_SomeD(1) [OF m] exec_SomeD(2) [OF m] exec_SomeD(3) [OF m] exec_SomeD(4) [OF m] d g
      by (intro conjI)
  qed
  have c: "defaultParseCommitMessage commit ws =
      Inl (UnknownCommit commit ''The commit message does not match the default pattern.'')
    \<longleftrightarrow> \<not> matches RE_DEFAULT_PATTERN (subject commit)"
  proof (cases "RE_DEFAULT_PATTERN_exec (subject commit)")
    case None
    then have "\<not> matches RE_DEFAULT_PATTERN (subject commit)" using a by simp
    with classify_no_match [OF None] show ?thesis by simp
  next
    case (Some m)
    then have "matches RE_DEFAULT_PATTERN (subject commit)" using a by simp
    with classify_match_not_pattern_diagnostic [OF Some] show ?thesis by simp
  qed
  show ?thesis by (rule conjI [OF a conjI [OF b c]])
qed

lemma exec_fix_foo_bar:
  "RE_DEFAULT_PATTERN_exec ''fix(foo(bar)): x'' =
     Some \<lparr>group1 = ''fix'', group2 = Some ''foo(bar)'', group3 = ''x''\<rparr>"
  by code_simp

text \<open>
  A subject with parentheses inside the scope list matches, and is not answered with the
  diagnostic of a subject that does not match.
\<close>

theorem commit_pattern_recognition_witness:
  "matches RE_DEFAULT_PATTERN ''fix(foo(bar)): x'' \<and>
   defaultParseCommitMessage \<lparr>subject = ''fix(foo(bar)): x'', body = '''', hash = ''''\<rparr> [] \<noteq>
      Inl (UnknownCommit \<lparr>subject = ''fix(foo(bar)): x'', body = '''', hash = ''''\<rparr>
             ''The commit message does not match the default pattern.'')"
  using commit_pattern_recognition [of "\<lparr>subject = ''fix(foo(bar)): x'', body = '''', hash = ''''\<rparr>" "[]"]
  by (simp add: exec_fix_foo_bar)

text \<open>
  Claim C3 as stated fails: the subject \<open>fix(foo(bar)): x\<close> does not match the grammar of
  the specification, whose scope list excludes \<open>)\<close>, and the classifier recognizes it,
  with the scope list \<open>foo(bar)\<close>.
\<close>

theorem spec_grammar_counterexample:
  "\<not> matches spec_grammar ''fix(foo(bar)): x'' \<and>
   matches RE_DEFAULT_PATTERN ''fix(foo(bar)): x'' \<and>
   defaultParseCommitMessage \<lparr>subject = ''fix(foo(bar)): x'', body = '''', hash = ''''\<rparr> []
     = Inr [\<lparr>bump_module = ''foo(bar)'', bump_tag = ''fix'',
             bump_commit = \<lparr>subject = ''fix(foo(bar)): x'', body = '''', hash = ''''\<rparr>,
             bump_version = Version Patch\<rparr>]"
  by code_simp

text \<open>
  Claim C4, as amended. For a subject that matches the pattern and whose kind token is
  not in the table (and is not the name of a property that every object inherits), the
  classifier first looks at the module references: with none (no scope list, or the
  wildcard over an empty list of modules) the result is \<open>skipped_commit\<close>, because a
  kind outside the table is not scope-required; with at least one the result is
  \<open>unknown_commit\<close>, and the reason cites the kind.
\<close>

theorem unknown_kind_classification:
  assumes "RE_DEFAULT_PATTERN_exec (subject commit) = Some m"
    and "group1 m \<notin> set TAG_PRIORITY"
    and "group1 m \<notin> set Object_prototype_keys"
  shows "defaultParseCommitMessage commit ws =
     (if group2 m = None \<or> (group2 m = Some ''*'' \<and> ws = [])
      then Inl (SkippedCommit commit ''The commit message does not specify a module.'')
      else Inl (UnknownCommit commit (''Unknown commit tag: '' @ group1 m @ ''.'')))"
proof -
  have u: "TAG_TO_VERSION_get (group1 m) = Undefined"
    using assms(2,3) by (rule TAG_TO_VERSION_get_unknown)
  have r: "group1 m \<notin> set DEFAULT_RANGE_REQUIRED"
    using assms(2) required_in_table by blast
  show ?thesis
  proof (cases "group2 m")
    case None
    with classify_no_scope [OF assms(1) None, of ws] r show ?thesis by simp
  next
    case (Some x)
    show ?thesis
    proof (cases "x = ''*''")
      case True
      with Some classify_wildcard [OF assms(1), of ws] u r show ?thesis by simp
    next
      case False
      with Some classify_scopes [OF assms(1) Some False, of ws] u show ?thesis by simp
    qed
  qed
qed

lemma exec_bogus_foo:
  "RE_DEFAULT_PATTERN_exec ''bogus(foo): x'' =
     Some \<lparr>group1 = ''bogus'', group2 = Some ''foo'', group3 = ''x''\<rparr>"
  by code_simp

lemma bogus_unknown: "''bogus'' \<notin> set TAG_PRIORITY" "''bogus'' \<notin> set Object_prototype_keys"
  by (simp_all add: TAG_PRIORITY_def TAG_TO_VERSION_def Object_prototype_keys_def)

text \<open>
  The example of the specification: \<open>bogus(foo): x\<close> is an \<open>unknown_commit\<close> whose reason
  cites \<open>bogus\<close>.
\<close>

theorem unknown_kind_classification_witness:
  "defaultParseCommitMessage \<lparr>subject = ''bogus(foo): x'', body = '''', hash = ''''\<rparr>
     [\<lparr>name = ''@scope/foo'', version = ''1.2.3'', path = ''foo/deno.json''\<rparr>]
   = Inl (UnknownCommit \<lparr>subject = ''bogus(foo): x'', body = '''', hash = ''''\<rparr>
            ''Unknown commit tag: bogus.'')"
proof -
  let ?c = "\<lparr>subject = ''bogus(foo): x'', body = '''', hash = ''''\<rparr>"
  let ?m = "\<lparr>group1 = ''bogus'', group2 = Some ''foo'', group3 = ''x''\<rparr>"
  have h1: "RE_DEFAULT_PATTERN_exec (subject ?c) = Some ?m" by (simp add: exec_bogus_foo)
  have h2: "group1 ?m \<notin> set TAG_PRIORITY" by (simp add: bogus_unknown)
  have h3: "group1 ?m \<notin> set Object_prototype_keys" by (simp add: bogus_unknown)
  show ?thesis
    using unknown_kind_classification [OF h1 h2 h3] by simp
qed

text \<open>
  Claim C4 as stated fails: \<open>bogus: x\<close> matches the pattern, \<open>bogus\<close> is not in the table,
  and the result is \<open>skipped_commit\<close>.
\<close>

theorem unknown_kind_no_scope_counterexample:
  "matches RE_DEFAULT_PATTERN ''bogus: x'' \<and>
   ''bogus'' \<notin> set TAG_PRIORITY \<and>
   defaultParseCommitMessage \<lparr>subject = ''bogus: x'', body = '''', hash = ''''\<rparr>
     [\<lparr>name = ''@scope/foo'', version = ''1.2.3'', path = ''foo/deno.json''\<rparr>]
   = Inl (SkippedCommit \<lparr>subject = ''bogus: x'', body = '''', hash = ''''\<rparr>
            ''The commit message does not specify a module.'')"
  by code_simp

text \<open>
  A kind token that names an inherited property of \<open>TAG_TO_VERSION\<close> is not
  \<open>undefined\<close> in \<open>TAG_TO_VERSION[tag]\<close>: the classifier returns proposals whose version is
  the inherited member.
\<close>

lemma inherited_tag_is_accepted:
  "defaultParseCommitMessage \<lparr>subject = ''toString(foo): x'', body = '''', hash = ''''\<rparr> ws
   = Inr [\<lparr>bump_module = ''foo'', bump_tag = ''toString'',
           bump_commit = \<lparr>subject = ''toString(foo): x'', body = '''', hash = ''''\<rparr>,
           bump_version = ObjectMember ''toString''\<rparr>]"
proof -
  have e: "RE_DEFAULT_PATTERN_exec ''toString(foo): x'' =
     Some \<lparr>group1 = ''toString'', group2 = Some ''foo'', group3 = ''x''\<rparr>"
    by code_simp
  have g: "TAG_TO_VERSION_get ''toString'' = ObjectMember ''toString''" by code_simp
  have s: "split_scopes ''foo'' = [''foo'']" by code_simp
  show ?thesis
    by (simp add: defaultParseCommitMessage_def Let_def e g s)
qed

text \<open>
  Claim C7. For a subject that matches the pattern with a kind of the table: without a
  scope list, the result is \<open>missing_range\<close> (the \<open>missing_scope\<close> of the specification)
  when the kind is one of BREAKING, feat, fix, perf, deprecation, and \<open>skipped_commit\<close>
  for every other kind; with the scope list \<open>*\<close>, the proposals are one per known module,
  in the order of the modules, all with the kind, its severity and the commit. (With no
  known module there is no proposal: the result is then the diagnostic of a subject
  without scope list.)
\<close>

theorem recognized_kind_scope_rules:
  assumes "RE_DEFAULT_PATTERN_exec (subject commit) = Some m"
    and "group1 m \<in> set TAG_PRIORITY"
  shows "(group2 m = None \<longrightarrow>
      defaultParseCommitMessage commit ws =
        Inl (if group1 m \<in> {''BREAKING'', ''feat'', ''fix'', ''perf'', ''deprecation''}
             then MissingRange commit ''The commit message does not specify a module.''
             else SkippedCommit commit ''The commit message does not specify a module.'')) \<and>
   (group2 m = Some ''*'' \<longrightarrow>
      (\<exists>v. (group1 m, v) \<in> set TAG_TO_VERSION \<and>
        proposals (defaultParseCommitMessage commit ws) =
          map (\<lambda>w. \<lparr>bump_module = name w, bump_tag = group1 m, bump_commit = commit,
                    bump_version = Version v\<rparr>) ws \<and>
        (ws \<noteq> [] \<longrightarrow> defaultParseCommitMessage commit ws =
          Inr (map (\<lambda>w. \<lparr>bump_module = name w, bump_tag = group1 m, bump_commit = commit,
                         bump_version = Version v\<rparr>) ws))))"
proof -
  have req: "set DEFAULT_RANGE_REQUIRED = {''BREAKING'', ''feat'', ''fix'', ''perf'', ''deprecation''}"
    by (simp add: DEFAULT_RANGE_REQUIRED_def)
  obtain v where v: "(group1 m, v) \<in> set TAG_TO_VERSION" "TAG_TO_VERSION_get (group1 m) = Version v"
    using TAG_TO_VERSION_get_known [OF assms(2)] by blast
  have a: "group2 m = None \<longrightarrow>
      defaultParseCommitMessage commit ws =
        Inl (if group1 m \<in> {''BREAKING'', ''feat'', ''fix'', ''perf'', ''deprecation''}
             then MissingRange commit ''The commit message does not specify a module.''
             else SkippedCommit commit ''The commit message does not specify a module.'')"
    using classify_no_scope [OF assms(1), of ws] unfolding req by blast
  have b: "group2 m = Some ''*'' \<longrightarrow>
      (\<exists>v. (group1 m, v) \<in> set TAG_TO_VERSION \<and>
        proposals (defaultParseCommitMessage commit ws) =
          map (\<lambda>w. \<lparr>bump_module = name w, bump_tag = group1 m, bump_commit = commit,
                    bump_version = Version v\<rparr>) ws \<and>
        (ws \<noteq> [] \<longrightarrow> defaultParseCommitMessage commit ws =
          Inr (map (\<lambda>w. \<lparr>bump_module = name w, bump_tag = group1 m, bump_commit = commit,
                         bump_version = Version v\<rparr>) ws)))"
  proof
    assume w: "group2 m = Some ''*''"
    have "proposals (defaultParseCommitMessage commit ws) =
          map (\<lambda>w. \<lparr>bump_module = name w, bump_tag = group1 m, bump_commit = commit,
                    bump_version = Version v\<rparr>) ws \<and>
        (ws \<noteq> [] \<longrightarrow> defaultParseCommitMessage commit ws =
          Inr (map (\<lambda>w. \<lparr>bump_module = name w, bump_tag = group1 m, bump_commit = commit,
                         bump_version = Version v\<rparr>) ws))"
      using classify_wildcard [OF assms(1) w, of ws] v(2) by (simp add: proposals_def)
    with v(1) show "\<exists>v. (group1 m, v) \<in> set TAG_TO_VERSION \<and>
        proposals (defaultParseCommitMessage commit ws) =
          map (\<lambda>w. \<lparr>bump_module = name w, bump_tag = group1 m, bump_commit = commit,
                    bump_version = Version v\<rparr>) ws \<and>
        (ws \<noteq> [] \<longrightarrow> defaultParseCommitMessage commit ws =
          Inr (map (\<lambda>w. \<lparr>bump_module = name w, bump_tag = group1 m, bump_commit = commit,
                         bump_version = Version v\<rparr>) ws))"
      by blast
  qed
  show ?thesis by (rule conjI [OF a b])
qed

lemma exec_fix_star:
  "RE_DEFAULT_PATTERN_exec ''fix(*): x'' = Some \<lparr>group1 = ''fix'', group2 = Some ''*'', group3 = ''x''\<rparr>"
  by code_simp

lemma fix_severity: "(''fix'', v) \<in> set TAG_TO_VERSION \<longleftrightarrow> v = Patch"
  by (auto simp add: TAG_TO_VERSION_def)

text \<open>
  The example of the specification: \<open>fix(*): x\<close> on two modules gives one proposal for
  each, of kind \<open>fix\<close>.
\<close>

theorem recognized_kind_scope_rules_witness:
  "defaultParseCommitMessage \<lparr>subject = ''fix(*): x'', body = '''', hash = ''''\<rparr>
     [\<lparr>name = ''@scope/foo'', version = ''1.2.3'', path = ''foo/deno.json''\<rparr>,
      \<lparr>name = ''@scope/bar'', version = ''0.2.3'', path = ''bar/deno.json''\<rparr>]
   = Inr [\<lparr>bump_module = ''@scope/foo'', bump_tag = ''fix'',
           bump_commit = \<lparr>subject = ''fix(*): x'', body = '''', hash = ''''\<rparr>,
           bump_version = Version Patch\<rparr>,
          \<lparr>bump_module = ''@scope/bar'', bump_tag = ''fix'',
           bump_commit = \<lparr>subject = ''fix(*): x'', body = '''', hash = ''''\<rparr>,
           bump_version = Version Patch\<rparr>]"
proof -
  let ?c = "\<lparr>subject = ''fix(*): x'', body = '''', hash = ''''\<rparr>"
  let ?m = "\<lparr>group1 = ''fix'', group2 = Some ''*'', group3 = ''x''\<rparr>"
  have h1: "RE_DEFAULT_PATTERN_exec (subject ?c) = Some ?m" by (simp add: exec_fix_star)
  have h2: "group1 ?m \<in> set TAG_PRIORITY" by (simp add: TAG_PRIORITY_def TAG_TO_VERSION_def)
  show ?thesis
    using recognized_kind_scope_rules [OF h1 h2] by (simp add: fix_severity)
qed

section \<open>Properties of the bump aggregator\<close>

lemma maxVersion_single: "maxVersion v v = max_severity [v]"
  by (simp add: maxVersion_def max_severity_def)

lemma maxVersion_snoc: "maxVersion (Version (max_severity vs)) v = max_severity (vs @ [v])"
  by (auto simp add: maxVersion_def max_severity_def)

lemma bumps_for_snoc:
  "bumps_for k (bs @ [b]) = (if bump_module b = k then bumps_for k bs @ [b] else bumps_for k bs)"
  by (simp add: bumps_for_def)

lemma bumps_for_empty_iff: "bumps_for k bs = [] \<longleftrightarrow> k \<notin> bump_module ` set bs"
  by (auto simp add: bumps_for_def filter_empty_conv)

lemma raw_summary_first:
  assumes "bumps_for (bump_module b) bs = []"
  shows "raw_summary (bs @ [b]) (bump_module b) =
     \<lparr>summary_module = bump_module b, summary_version = maxVersion (bump_version b) (bump_version b),
      summary_commits = [commit_with_tag b]\<rparr>"
  using assms by (simp add: raw_summary_def bumps_for_snoc maxVersion_single)

lemma raw_summary_next:
  "raw_summary (bs @ [b]) (bump_module b) =
     (raw_summary bs (bump_module b))
       \<lparr>summary_version :=
          maxVersion (Version (summary_version (raw_summary bs (bump_module b)))) (bump_version b),
        summary_commits := summary_commits (raw_summary bs (bump_module b)) @ [commit_with_tag b]\<rparr>"
  by (simp add: raw_summary_def bumps_for_snoc maxVersion_snoc)

lemma raw_summary_other:
  "bump_module b \<noteq> k \<Longrightarrow> raw_summary (bs @ [b]) k = raw_summary bs k"
  by (simp add: raw_summary_def bumps_for_snoc)

lemma summarize_loop_append:
  "summarize_loop (xs @ ys) result =
     (case summarize_loop xs result of Inl e \<Rightarrow> Inl e | Inr r \<Rightarrow> summarize_loop ys r)"
  by (induction xs arbitrary: result) (auto split: sum.splits)

lemma summarize_loop_snoc:
  "summarize_loop (bs @ [b]) result =
     (case summarize_loop bs result of Inl e \<Rightarrow> Inl e | Inr r \<Rightarrow> add_bump r b)"
  by (simp add: summarize_loop_append split: sum.splits)

lemma add_bump_spec:
  assumes "loop_spec bs r" and "bump_module b \<notin> set Object_prototype_keys"
  shows "\<exists>r'. add_bump r b = Inr r' \<and> loop_spec (bs @ [b]) r'"
proof -
  let ?k = "bump_module b"
  from assms(1) have d: "distinct (map fst r)"
    and m: "\<And>k. map_of r k = (if bumps_for k bs = [] then None else Some (raw_summary bs k))"
    by (simp_all add: loop_spec_def)
  let ?new = "raw_summary (bs @ [b]) ?k"
  have step: "add_bump r b = Inr (AList.update ?k ?new r)"
  proof (cases "bumps_for ?k bs = []")
    case True
    with m [of ?k] have "map_of r ?k = None" by simp
    with assms(2) raw_summary_first [OF True] show ?thesis
      by (simp add: add_bump_def Let_def)
  next
    case False
    with m [of ?k] have "map_of r ?k = Some (raw_summary bs ?k)" by simp
    with raw_summary_next [of bs b] show ?thesis
      by (simp add: add_bump_def Let_def)
  qed
  have "loop_spec (bs @ [b]) (AList.update ?k ?new r)"
    unfolding loop_spec_def
  proof (intro conjI allI)
    show "distinct (map fst (AList.update ?k ?new r))" using d by (rule distinct_update)
  next
    fix k
    show "map_of (AList.update ?k ?new r) k =
       (if bumps_for k (bs @ [b]) = [] then None else Some (raw_summary (bs @ [b]) k))"
    proof (cases "k = ?k")
      case True
      then show ?thesis by (simp add: update_conv' bumps_for_snoc)
    next
      case False
      then have "bump_module b \<noteq> k" by simp
      with m [of k] raw_summary_other [OF this, of bs] show ?thesis
        by (simp add: update_conv' bumps_for_snoc)
    qed
  qed
  with step show ?thesis by blast
qed

lemma summarize_loop_spec:
  assumes "\<forall>b\<in>set bs. bump_module b \<notin> set Object_prototype_keys"
  shows "\<exists>r. summarize_loop bs [] = Inr r \<and> loop_spec bs r"
  using assms
proof (induction bs rule: rev_induct)
  case Nil
  show ?case by (simp add: loop_spec_def bumps_for_def)
next
  case (snoc b bs)
  then obtain r where r: "summarize_loop bs [] = Inr r" "loop_spec bs r" by auto
  from snoc.prems have "bump_module b \<notin> set Object_prototype_keys" by simp
  from add_bump_spec [OF r(2) this] obtain r' where "add_bump r b = Inr r'" "loop_spec (bs @ [b]) r'"
    by blast
  with r(1) show ?case by (simp add: summarize_loop_snoc)
qed

lemma summarize_loop_error:
  assumes "\<exists>b\<in>set bs. bump_module b \<in> set Object_prototype_keys"
  shows "summarize_loop bs [] = Inl TypeErrorUndefined"
  using assms
proof (induction bs rule: rev_induct)
  case Nil
  then show ?case by simp
next
  case (snoc b bs)
  show ?case
  proof (cases "\<exists>b\<in>set bs. bump_module b \<in> set Object_prototype_keys")
    case True
    with snoc.IH show ?thesis by (simp add: summarize_loop_snoc)
  next
    case False
    then have ok: "\<forall>b\<in>set bs. bump_module b \<notin> set Object_prototype_keys" by blast
    with snoc.prems have k: "bump_module b \<in> set Object_prototype_keys" by auto
    from summarize_loop_spec [OF ok] obtain r where r: "summarize_loop bs [] = Inr r" "loop_spec bs r"
      by blast
    from ok k have "bump_module b \<notin> bump_module ` set bs" by auto
    then have "bumps_for (bump_module b) bs = []" by (simp add: bumps_for_empty_iff)
    with r(2) have "map_of r (bump_module b) = None" by (simp add: loop_spec_def)
    with k have "add_bump r b = Inl TypeErrorUndefined" by (simp add: add_bump_def Let_def)
    with r(1) show ?thesis by (simp add: summarize_loop_snoc)
  qed
qed

lemma summary_module_summary_for [simp]: "summary_module (summary_for bs k) = k"
  by (simp add: summary_for_def sort_commits_def raw_summary_def)

lemma loop_spec_values:
  assumes "loop_spec bs r"
  shows "map (\<lambda>kv. sort_commits (snd kv)) r = map (summary_for bs) (map fst r)"
    and "set (map fst r) = bump_module ` set bs"
proof -
  from assms have d: "distinct (map fst r)"
    and m: "\<And>k. map_of r k = (if bumps_for k bs = [] then None else Some (raw_summary bs k))"
    by (simp_all add: loop_spec_def)
  have v: "s = raw_summary bs k" if "(k, s) \<in> set r" for k s
  proof -
    from that d have "map_of r k = Some s" by simp
    with m [of k] show ?thesis by (simp split: if_splits)
  qed
  then have "sort_commits (snd kv) = summary_for bs (fst kv)" if "kv \<in> set r" for kv
    using that by (cases kv) (simp add: summary_for_def)
  then show "map (\<lambda>kv. sort_commits (snd kv)) r = map (summary_for bs) (map fst r)"
    by simp
  have "k \<in> fst ` set r \<longleftrightarrow> k \<in> bump_module ` set bs" for k
  proof -
    have "k \<in> fst ` set r \<longleftrightarrow> map_of r k \<noteq> None" by (simp add: map_of_eq_None_iff)
    also have "\<dots> \<longleftrightarrow> bumps_for k bs \<noteq> []" using m [of k] by simp
    also have "\<dots> \<longleftrightarrow> k \<in> bump_module ` set bs" by (simp add: bumps_for_empty_iff)
    finally show ?thesis .
  qed
  then show "set (map fst r) = bump_module ` set bs" by auto
qed

lemma sort_summaries:
  assumes "distinct ks"
  shows "sort_key summary_module (map (summary_for bs) ks) =
         map (summary_for bs) (sorted_list_of_set (set ks))"
proof (rule sort_key_inj_key_eq)
  have "mset (sorted_list_of_set (set ks)) = mset ks"
    using assms by (metis distinct_remdups_id sorted_list_of_set_sort_remdups mset_sort)
  then show "mset (map (summary_for bs) ks) = mset (map (summary_for bs) (sorted_list_of_set (set ks)))"
    by simp
  show "inj_on summary_module (set (map (summary_for bs) ks))"
    by (auto simp add: inj_on_def)
  have "map summary_module (map (summary_for bs) (sorted_list_of_set (set ks))) = sorted_list_of_set (set ks)"
    by (simp add: comp_def)
  then show "sorted (map summary_module (map (summary_for bs) (sorted_list_of_set (set ks))))"
    by simp
qed

lemma summarize_ok:
  assumes "\<forall>b\<in>set bs. bump_module b \<notin> set Object_prototype_keys"
  shows "summarizeVersionBumpsByModule bs =
           Inr (map (summary_for bs) (sorted_list_of_set (bump_module ` set bs)))"
proof -
  from summarize_loop_spec [OF assms] obtain r where r: "summarize_loop bs [] = Inr r" "loop_spec bs r"
    by blast
  from r(2) have d: "distinct (map fst r)" by (simp add: loop_spec_def)
  have "sort_key summary_module (map (\<lambda>kv. sort_commits (snd kv)) r) =
        sort_key summary_module (map (summary_for bs) (map fst r))"
    by (simp only: loop_spec_values(1) [OF r(2)])
  also have "\<dots> = map (summary_for bs) (sorted_list_of_set (set (map fst r)))"
    using d by (rule sort_summaries)
  also have "\<dots> = map (summary_for bs) (sorted_list_of_set (bump_module ` set bs))"
    by (simp only: loop_spec_values(2) [OF r(2)])
  finally show ?thesis using r(1) by (simp add: summarizeVersionBumpsByModule_def)
qed

lemma summarize_error:
  assumes "\<exists>b\<in>set bs. bump_module b \<in> set Object_prototype_keys"
  shows "summarizeVersionBumpsByModule bs = Inl TypeErrorUndefined"
  using summarize_loop_error [OF assms] by (simp add: summarizeVersionBumpsByModule_def)

lemma severity_rank_max:
  assumes "vs \<noteq> []"
  shows "severity_rank (Version (max_severity vs)) = Max (severity_rank ` set vs)"
proof -
  have fin: "finite (severity_rank ` set vs)" by simp
  have le2: "\<And>y. y \<in> severity_rank ` set vs \<Longrightarrow> y \<le> 2" by (auto simp add: severity_rank_def)
  consider (major) "Version Major \<in> set vs"
    | (minor) "Version Major \<notin> set vs" "Version Minor \<in> set vs"
    | (patch) "Version Major \<notin> set vs" "Version Minor \<notin> set vs"
    by blast
  then show ?thesis
  proof cases
    case major
    then have "2 \<in> severity_rank ` set vs" by (force simp add: severity_rank_def)
    with fin le2 have "Max (severity_rank ` set vs) = 2" by (intro Max_eqI) auto
    with major show ?thesis by (simp add: max_severity_def severity_rank_def)
  next
    case minor
    then have in1: "1 \<in> severity_rank ` set vs" by (force simp add: severity_rank_def)
    have "\<And>y. y \<in> severity_rank ` set vs \<Longrightarrow> y \<le> 1"
      using minor(1) by (auto simp add: severity_rank_def)
    with fin in1 have "Max (severity_rank ` set vs) = 1" by (intro Max_eqI) auto
    with minor show ?thesis by (simp add: max_severity_def severity_rank_def)
  next
    case patch
    then have all0: "\<And>y. y \<in> severity_rank ` set vs \<Longrightarrow> y \<le> 0"
      by (auto simp add: severity_rank_def)
    from assms obtain v where "v \<in> set vs" by (cases vs) auto
    with patch have "0 \<in> severity_rank ` set vs" by (force simp add: severity_rank_def)
    with fin all0 have "Max (severity_rank ` set vs) = 0" by (intro Max_eqI) auto
    with patch show ?thesis by (simp add: max_severity_def severity_rank_def)
  qed
qed

lemma max_severity_cases: "max_severity vs \<in> {Major, Minor, Patch}"
  by (simp add: max_severity_def)

lemma max_severity_attained:
  assumes "vs \<noteq> []" and "set vs \<subseteq> {Version Major, Version Minor, Version Patch}"
  shows "Version (max_severity vs) \<in> set vs"
proof -
  from assms(1) obtain v where "v \<in> set vs" by (cases vs) auto
  with assms(2) show ?thesis by (auto simp add: max_severity_def)
qed

lemma max_severity_set: "set vs = set ws \<Longrightarrow> max_severity vs = max_severity ws"
  by (simp add: max_severity_def)

lemma set_bumps_for: "set (bumps_for k bs) = {b \<in> set bs. bump_module b = k}"
  by (auto simp add: bumps_for_def)

lemma summary_for_fields:
  "summary_version (summary_for bs k) = max_severity (map bump_version (bumps_for k bs))"
  "summary_commits (summary_for bs k) =
     sort_key (\<lambda>c. indexOf TAG_PRIORITY (tag c)) (map commit_with_tag (bumps_for k bs))"
  by (simp_all add: summary_for_def sort_commits_def raw_summary_def)

lemma summarize_cases:
  "summarizeVersionBumpsByModule bs =
     (if \<exists>b\<in>set bs. bump_module b \<in> set Object_prototype_keys then Inl TypeErrorUndefined
      else Inr (map (summary_for bs) (sorted_list_of_set (bump_module ` set bs))))"
  using summarize_ok [of bs] summarize_error [of bs] by auto

lemma summarize_InrD:
  assumes "summarizeVersionBumpsByModule bs = Inr out"
  shows "out = map (summary_for bs) (sorted_list_of_set (bump_module ` set bs))"
    and "map summary_module out = sorted_list_of_set (bump_module ` set bs)"
    and "\<And>s. s \<in> set out \<Longrightarrow> s = summary_for bs (summary_module s) \<and> summary_module s \<in> bump_module ` set bs"
proof -
  from assms show o: "out = map (summary_for bs) (sorted_list_of_set (bump_module ` set bs))"
    by (simp add: summarize_cases split: if_splits)
  then show "map summary_module out = sorted_list_of_set (bump_module ` set bs)"
    by (simp add: comp_def)
  fix s assume "s \<in> set out"
  with o show "s = summary_for bs (summary_module s) \<and> summary_module s \<in> bump_module ` set bs"
    by auto
qed

lemma tag_priorities:
  "map (indexOf TAG_PRIORITY)
     [''BREAKING'', ''feat'', ''deprecation'', ''fix'', ''perf'', ''docs'', ''style'', ''refactor'',
      ''test'', ''chore''] = [0, 1, 2, 3, 4, 5, 6, 7, 8, 9]"
  by (simp add: TAG_PRIORITY_def TAG_TO_VERSION_def)

text \<open>
  Claim C5. Whenever the aggregator returns, its output lists the modules that occur in
  the proposals in strictly increasing lexical order, once each; every permutation of
  the proposals gives the same list of modules; and the commits of each module are the
  commits of its proposals, sorted by the position of their kind in the priority table
  (BREAKING, feat, deprecation, fix, perf, docs, style, refactor, test, chore have the
  positions 0 to 9), commits of the same position staying in the order of encounter.
  The aggregator is a function, so its output is determined by its input. It returns
  unless a proposal names a module like an inherited property of an object.
\<close>

theorem aggregator_output_order:
  "(\<forall>out. summarizeVersionBumpsByModule bs = Inr out \<longrightarrow>
      map summary_module out = sorted_list_of_set (bump_module ` set bs) \<and>
      sorted_wrt (<) (map summary_module out) \<and>
      (\<forall>bs'. mset bs' = mset bs \<longrightarrow>
         (\<exists>out'. summarizeVersionBumpsByModule bs' = Inr out' \<and>
                 map summary_module out' = map summary_module out)) \<and>
      (\<forall>s\<in>set out.
         summary_commits s =
           sort_key (\<lambda>c. indexOf TAG_PRIORITY (tag c))
             (map commit_with_tag (bumps_for (summary_module s) bs)) \<and>
         sorted (map (\<lambda>c. indexOf TAG_PRIORITY (tag c)) (summary_commits s)) \<and>
         (\<forall>p. filter (\<lambda>c. indexOf TAG_PRIORITY (tag c) = p) (summary_commits s) =
              filter (\<lambda>c. indexOf TAG_PRIORITY (tag c) = p)
                (map commit_with_tag (bumps_for (summary_module s) bs))))) \<and>
   ((\<forall>b\<in>set bs. bump_module b \<notin> set Object_prototype_keys) \<longrightarrow>
      (\<exists>out. summarizeVersionBumpsByModule bs = Inr out)) \<and>
   map (indexOf TAG_PRIORITY)
     [''BREAKING'', ''feat'', ''deprecation'', ''fix'', ''perf'', ''docs'', ''style'', ''refactor'',
      ''test'', ''chore''] = [0, 1, 2, 3, 4, 5, 6, 7, 8, 9]"
proof -
  have a: "\<forall>out. summarizeVersionBumpsByModule bs = Inr out \<longrightarrow>
      map summary_module out = sorted_list_of_set (bump_module ` set bs) \<and>
      sorted_wrt (<) (map summary_module out) \<and>
      (\<forall>bs'. mset bs' = mset bs \<longrightarrow>
         (\<exists>out'. summarizeVersionBumpsByModule bs' = Inr out' \<and>
                 map summary_module out' = map summary_module out)) \<and>
      (\<forall>s\<in>set out.
         summary_commits s =
           sort_key (\<lambda>c. indexOf TAG_PRIORITY (tag c))
             (map commit_with_tag (bumps_for (summary_module s) bs)) \<and>
         sorted (map (\<lambda>c. indexOf TAG_PRIORITY (tag c)) (summary_commits s)) \<and>
         (\<forall>p. filter (\<lambda>c. indexOf TAG_PRIORITY (tag c) = p) (summary_commits s) =
              filter (\<lambda>c. indexOf TAG_PRIORITY (tag c) = p)
                (map commit_with_tag (bumps_for (summary_module s) bs))))"
  proof (rule allI, rule impI)
    fix out assume out: "summarizeVersionBumpsByModule bs = Inr out"
    have m: "map summary_module out = sorted_list_of_set (bump_module ` set bs)"
      using summarize_InrD(2) [OF out] .
    have st: "sorted_wrt (<) (map summary_module out)"
      unfolding m by (simp add: strict_sorted_iff)
    have ok: "\<not> (\<exists>b\<in>set bs. bump_module b \<in> set Object_prototype_keys)"
      using out by (simp add: summarize_cases split: if_splits)
    have perm: "\<forall>bs'. mset bs' = mset bs \<longrightarrow>
         (\<exists>out'. summarizeVersionBumpsByModule bs' = Inr out' \<and>
                 map summary_module out' = map summary_module out)"
    proof (rule allI, rule impI)
      fix bs' assume "mset bs' = mset bs"
      then have s: "set bs' = set bs" by (rule mset_eq_setD)
      with ok have "summarizeVersionBumpsByModule bs' =
          Inr (map (summary_for bs') (sorted_list_of_set (bump_module ` set bs)))"
        by (simp add: summarize_cases)
      moreover have "map summary_module (map (summary_for bs') (sorted_list_of_set (bump_module ` set bs)))
          = map summary_module out"
        unfolding m by (simp add: comp_def)
      ultimately show "\<exists>out'. summarizeVersionBumpsByModule bs' = Inr out' \<and>
                 map summary_module out' = map summary_module out"
        by blast
    qed
    have each: "\<forall>s\<in>set out.
         summary_commits s =
           sort_key (\<lambda>c. indexOf TAG_PRIORITY (tag c))
             (map commit_with_tag (bumps_for (summary_module s) bs)) \<and>
         sorted (map (\<lambda>c. indexOf TAG_PRIORITY (tag c)) (summary_commits s)) \<and>
         (\<forall>p. filter (\<lambda>c. indexOf TAG_PRIORITY (tag c) = p) (summary_commits s) =
              filter (\<lambda>c. indexOf TAG_PRIORITY (tag c) = p)
                (map commit_with_tag (bumps_for (summary_module s) bs)))"
    proof
      fix s assume "s \<in> set out"
      then have "s = summary_for bs (summary_module s)" using summarize_InrD(3) [OF out] by blast
      then have c: "summary_commits s =
           sort_key (\<lambda>c. indexOf TAG_PRIORITY (tag c))
             (map commit_with_tag (bumps_for (summary_module s) bs))"
        using summary_for_fields(2) [of bs "summary_module s"] by simp
      show "summary_commits s =
           sort_key (\<lambda>c. indexOf TAG_PRIORITY (tag c))
             (map commit_with_tag (bumps_for (summary_module s) bs)) \<and>
         sorted (map (\<lambda>c. indexOf TAG_PRIORITY (tag c)) (summary_commits s)) \<and>
         (\<forall>p. filter (\<lambda>c. indexOf TAG_PRIORITY (tag c) = p) (summary_commits s) =
              filter (\<lambda>c. indexOf TAG_PRIORITY (tag c) = p)
                (map commit_with_tag (bumps_for (summary_module s) bs)))"
        unfolding c by (simp add: sort_key_stable)
    qed
    from m st perm each
    show "map summary_module out = sorted_list_of_set (bump_module ` set bs) \<and>
      sorted_wrt (<) (map summary_module out) \<and>
      (\<forall>bs'. mset bs' = mset bs \<longrightarrow>
         (\<exists>out'. summarizeVersionBumpsByModule bs' = Inr out' \<and>
                 map summary_module out' = map summary_module out)) \<and>
      (\<forall>s\<in>set out.
         summary_commits s =
           sort_key (\<lambda>c. indexOf TAG_PRIORITY (tag c))
             (map commit_with_tag (bumps_for (summary_module s) bs)) \<and>
         sorted (map (\<lambda>c. indexOf TAG_PRIORITY (tag c)) (summary_commits s)) \<and>
         (\<forall>p. filter (\<lambda>c. indexOf TAG_PRIORITY (tag c) = p) (summary_commits s) =
              filter (\<lambda>c. indexOf TAG_PRIORITY (tag c) = p)
                (map commit_with_tag (bumps_for (summary_module s) bs))))"
      by (intro conjI)
  qed
  have b: "(\<forall>b\<in>set bs. bump_module b \<notin> set Object_prototype_keys) \<longrightarrow>
      (\<exists>out. summarizeVersionBumpsByModule bs = Inr out)"
    by (simp add: summarize_cases)
  show ?thesis by (rule conjI [OF a conjI [OF b tag_priorities]])
qed

text \<open>
  Claim C9. A permutation of the proposals does not change the severity that
  aggregation gives to each module (nor whether aggregation returns), and the severity
  of a module is the maximum of the severities of its proposals in the order
  \<open>major > minor > patch\<close>: it is one of the three, its rank is the greatest rank among the
  proposals of the module, and it is the severity of one of them when all of them carry
  one of the three.
\<close>

theorem aggregated_severity:
  "(mset bs' = mset bs \<longrightarrow>
      map_sum id (map (\<lambda>s. (summary_module s, summary_version s))) (summarizeVersionBumpsByModule bs')
      = map_sum id (map (\<lambda>s. (summary_module s, summary_version s))) (summarizeVersionBumpsByModule bs)) \<and>
   (\<forall>out. summarizeVersionBumpsByModule bs = Inr out \<longrightarrow>
      (\<forall>s\<in>set out.
         bumps_for (summary_module s) bs \<noteq> [] \<and>
         summary_version s \<in> {Major, Minor, Patch} \<and>
         severity_rank (Version (summary_version s)) =
           Max (severity_rank ` bump_version ` set (bumps_for (summary_module s) bs)) \<and>
         (bump_version ` set (bumps_for (summary_module s) bs)
             \<subseteq> {Version Major, Version Minor, Version Patch} \<longrightarrow>
           Version (summary_version s) \<in> bump_version ` set (bumps_for (summary_module s) bs))))"
proof -
  have a: "mset bs' = mset bs \<longrightarrow>
      map_sum id (map (\<lambda>s. (summary_module s, summary_version s))) (summarizeVersionBumpsByModule bs')
      = map_sum id (map (\<lambda>s. (summary_module s, summary_version s))) (summarizeVersionBumpsByModule bs)"
  proof
    assume "mset bs' = mset bs"
    then have s: "set bs' = set bs" by (rule mset_eq_setD)
    have v: "summary_version (summary_for bs' k) = summary_version (summary_for bs k)" for k
      unfolding summary_for_fields
      by (rule max_severity_set) (simp add: set_bumps_for s)
    show "map_sum id (map (\<lambda>s. (summary_module s, summary_version s))) (summarizeVersionBumpsByModule bs')
      = map_sum id (map (\<lambda>s. (summary_module s, summary_version s))) (summarizeVersionBumpsByModule bs)"
      by (simp add: summarize_cases s comp_def v)
  qed
  have b: "\<forall>out. summarizeVersionBumpsByModule bs = Inr out \<longrightarrow>
      (\<forall>s\<in>set out.
         bumps_for (summary_module s) bs \<noteq> [] \<and>
         summary_version s \<in> {Major, Minor, Patch} \<and>
         severity_rank (Version (summary_version s)) =
           Max (severity_rank ` bump_version ` set (bumps_for (summary_module s) bs)) \<and>
         (bump_version ` set (bumps_for (summary_module s) bs)
             \<subseteq> {Version Major, Version Minor, Version Patch} \<longrightarrow>
           Version (summary_version s) \<in> bump_version ` set (bumps_for (summary_module s) bs)))"
  proof (rule allI, rule impI, rule ballI)
    fix out s assume out: "summarizeVersionBumpsByModule bs = Inr out" and s: "s \<in> set out"
    let ?g = "bumps_for (summary_module s) bs"
    let ?vs = "map bump_version ?g"
    from summarize_InrD(3) [OF out s]
    have eq: "s = summary_for bs (summary_module s)" and k: "summary_module s \<in> bump_module ` set bs"
      by blast+
    from k have ne: "?g \<noteq> []" by (simp add: bumps_for_empty_iff)
    then have ne': "?vs \<noteq> []" by simp
    have v: "summary_version s = max_severity ?vs"
      using eq summary_for_fields(1) [of bs "summary_module s"] by simp
    have r: "severity_rank (Version (summary_version s)) = Max (severity_rank ` bump_version ` set ?g)"
      unfolding v using severity_rank_max [OF ne'] by (simp add: image_image)
    have c: "summary_version s \<in> {Major, Minor, Patch}"
      unfolding v by (rule max_severity_cases)
    have t: "bump_version ` set ?g \<subseteq> {Version Major, Version Minor, Version Patch} \<longrightarrow>
           Version (summary_version s) \<in> bump_version ` set ?g"
      unfolding v using max_severity_attained [OF ne'] by simp
    from ne c r t
    show "?g \<noteq> [] \<and> summary_version s \<in> {Major, Minor, Patch} \<and>
         severity_rank (Version (summary_version s)) = Max (severity_rank ` bump_version ` set ?g) \<and>
         (bump_version ` set ?g \<subseteq> {Version Major, Version Minor, Version Patch} \<longrightarrow>
           Version (summary_version s) \<in> bump_version ` set ?g)"
      by (intro conjI)
  qed
  show ?thesis by (rule conjI [OF a b])
qed

section \<open>Properties of the module resolver and of the loop over the commits\<close>

lemma endsWith_iff: "endsWith s suffix \<longleftrightarrow> (\<exists>p. s = p @ suffix)"
proof
  assume "endsWith s suffix"
  then have "s = take (length s - length suffix) s @ suffix"
    by (metis append_take_drop_id endsWith_def)
  then show "\<exists>p. s = p @ suffix" by blast
next
  assume "\<exists>p. s = p @ suffix"
  then show "endsWith s suffix" by (auto simp add: endsWith_def)
qed

lemma module_matches_iff:
  "module_matches ref m \<longleftrightarrow> name m = ref \<or> (\<exists>p. name m = p @ ''/'' @ ref)"
  by (simp add: module_matches_def endsWith_iff)

lemma getModule_Some_iff:
  "getModule ref ms = Some m \<longleftrightarrow>
     (\<exists>i<length ms. ms ! i = m \<and> module_matches ref m \<and> (\<forall>j<i. \<not> module_matches ref (ms ! j)))"
  unfolding getModule_def find_Some_iff by blast

lemma getModule_None_iff:
  "getModule ref ms = None \<longleftrightarrow> (\<forall>m\<in>set ms. \<not> module_matches ref m)"
  unfolding getModule_def find_None_iff by blast

lemma check_bumps_eq:
  "check_bumps ms parsed (vbs, ds) =
     (vbs @ filter (\<lambda>b. getModule (bump_module b) ms \<noteq> None) parsed,
      ds @ map unknown_range (filter (\<lambda>b. getModule (bump_module b) ms = None) parsed))"
  by (induction parsed arbitrary: vbs ds) (simp_all add: checkModuleName_def unknown_range_def)

lemma collect_bumps_eq:
  "collect_bumps parse ms commits (vbs, ds) =
     (vbs @ filter (\<lambda>b. getModule (bump_module b) ms \<noteq> None) (all_proposals parse commits),
      ds @ all_diagnostics parse ms commits)"
proof (induction commits arbitrary: vbs ds)
  case Nil
  show ?case by (simp add: all_proposals_def all_diagnostics_def considered_def)
next
  case (Cons c cs)
  show ?case
  proof (cases "matches RE_VERSION_SUBJECT (subject c) \<or> matches RE_RELEASE_SUBJECT (subject c)")
    case True
    then have "considered (c # cs) = considered cs" by (auto simp add: considered_def)
    then have "all_proposals parse (c # cs) = all_proposals parse cs"
      "all_diagnostics parse ms (c # cs) = all_diagnostics parse ms cs"
      by (simp_all add: all_proposals_def all_diagnostics_def)
    with True Cons.IH [of vbs ds] show ?thesis by auto
  next
    case False
    then have k: "considered (c # cs) = c # considered cs" by (simp add: considered_def)
    show ?thesis
    proof (cases "parse c")
      case (Inl d)
      with k have "all_proposals parse (c # cs) = all_proposals parse cs"
        "all_diagnostics parse ms (c # cs) = d # all_diagnostics parse ms cs"
        by (simp_all add: all_proposals_def all_diagnostics_def proposals_def)
      with False Inl Cons.IH [of vbs "ds @ [d]"] show ?thesis by simp
    next
      case (Inr parsed)
      with k have "all_proposals parse (c # cs) = parsed @ all_proposals parse cs"
        "all_diagnostics parse ms (c # cs) =
           map unknown_range (filter (\<lambda>b. getModule (bump_module b) ms = None) parsed)
           @ all_diagnostics parse ms cs"
        by (simp_all add: all_proposals_def all_diagnostics_def proposals_def)
      with False Inr Cons.IH show ?thesis by (simp add: check_bumps_eq)
    qed
  qed
qed

lemma unresolved_in_diagnostics:
  assumes "b \<in> set (all_proposals parse commits)" and "getModule (bump_module b) ms = None"
  shows "unknown_range b \<in> set (all_diagnostics parse ms commits)"
proof -
  from assms(1) obtain c where c: "c \<in> set (considered commits)" "b \<in> set (proposals (parse c))"
    by (auto simp add: all_proposals_def)
  then obtain parsed where p: "parse c = Inr parsed" "b \<in> set parsed"
    by (cases "parse c") (auto simp add: proposals_def)
  with assms(2) have "unknown_range b \<in>
     set (map unknown_range (filter (\<lambda>b. getModule (bump_module b) ms = None) parsed))"
    by auto
  with c(1) p(1) show ?thesis by (force simp add: all_diagnostics_def)
qed

text \<open>
  Claim C8. \<open>getModule\<close> returns the first module, in the order of the list, whose name
  is the reference or ends with \<open>/\<close> followed by the reference, and nothing when there is
  none. In the loop over the commits, the proposals that go on to aggregation are
  exactly the proposals whose reference resolves, in their order; a proposal whose
  reference does not resolve adds the diagnostic \<open>unknown_range_commit\<close> (the
  \<open>unresolved_module\<close> of the specification) and is not among them; and every summary the
  aggregator then returns is for a reference that resolves and holds the commits of the
  proposals with that reference, while every proposal that resolves has its summary.
\<close>

theorem unresolved_module_excluded:
  "(getModule ref ms = Some m \<longleftrightarrow>
      (\<exists>i<length ms. ms ! i = m \<and> (name m = ref \<or> (\<exists>p. name m = p @ ''/'' @ ref)) \<and>
         (\<forall>j<i. \<not> (name (ms ! j) = ref \<or> (\<exists>p. name (ms ! j) = p @ ''/'' @ ref))))) \<and>
   (getModule ref ms = None \<longleftrightarrow>
      (\<forall>m\<in>set ms. \<not> (name m = ref \<or> (\<exists>p. name m = p @ ''/'' @ ref)))) \<and>
   fst (collect_bumps parse ms commits ([], [])) =
     filter (\<lambda>b. getModule (bump_module b) ms \<noteq> None) (all_proposals parse commits) \<and>
   (\<forall>b\<in>set (all_proposals parse commits). getModule (bump_module b) ms = None \<longrightarrow>
      UnknownRangeCommit (bump_commit b) (''Unknown module: '' @ bump_module b @ ''.'')
        \<in> set (snd (collect_bumps parse ms commits ([], []))) \<and>
      b \<notin> set (fst (collect_bumps parse ms commits ([], [])))) \<and>
   (\<forall>out. summarizeVersionBumpsByModule (fst (collect_bumps parse ms commits ([], []))) = Inr out \<longrightarrow>
      (\<forall>s\<in>set out. getModule (summary_module s) ms \<noteq> None \<and>
         set (summary_commits s) =
           commit_with_tag ` {b \<in> set (all_proposals parse commits). bump_module b = summary_module s}) \<and>
      (\<forall>b\<in>set (all_proposals parse commits). getModule (bump_module b) ms \<noteq> None \<longrightarrow>
         (\<exists>s\<in>set out. summary_module s = bump_module b)))"
proof -
  let ?all = "all_proposals parse commits"
  let ?vbs = "fst (collect_bumps parse ms commits ([], []))"
  let ?ds = "snd (collect_bumps parse ms commits ([], []))"
  have a: "getModule ref ms = Some m \<longleftrightarrow>
      (\<exists>i<length ms. ms ! i = m \<and> (name m = ref \<or> (\<exists>p. name m = p @ ''/'' @ ref)) \<and>
         (\<forall>j<i. \<not> (name (ms ! j) = ref \<or> (\<exists>p. name (ms ! j) = p @ ''/'' @ ref))))"
    unfolding getModule_Some_iff module_matches_iff ..
  have b: "getModule ref ms = None \<longleftrightarrow>
      (\<forall>m\<in>set ms. \<not> (name m = ref \<or> (\<exists>p. name m = p @ ''/'' @ ref)))"
    unfolding getModule_None_iff module_matches_iff ..
  have c: "?vbs = filter (\<lambda>b. getModule (bump_module b) ms \<noteq> None) ?all"
    by (simp add: collect_bumps_eq)
  have ds: "?ds = all_diagnostics parse ms commits"
    by (simp add: collect_bumps_eq)
  have d: "\<forall>b\<in>set ?all. getModule (bump_module b) ms = None \<longrightarrow>
      UnknownRangeCommit (bump_commit b) (''Unknown module: '' @ bump_module b @ ''.'') \<in> set ?ds \<and>
      b \<notin> set ?vbs"
  proof (rule ballI, rule impI)
    fix b assume "b \<in> set ?all" and n: "getModule (bump_module b) ms = None"
    then have "unknown_range b \<in> set ?ds"
      unfolding ds by (rule unresolved_in_diagnostics)
    moreover have "b \<notin> set ?vbs" unfolding c using n by simp
    ultimately show "UnknownRangeCommit (bump_commit b) (''Unknown module: '' @ bump_module b @ ''.'')
        \<in> set ?ds \<and> b \<notin> set ?vbs"
      by (simp add: unknown_range_def)
  qed
  have e: "\<forall>out. summarizeVersionBumpsByModule ?vbs = Inr out \<longrightarrow>
      (\<forall>s\<in>set out. getModule (summary_module s) ms \<noteq> None \<and>
         set (summary_commits s) =
           commit_with_tag ` {b \<in> set ?all. bump_module b = summary_module s}) \<and>
      (\<forall>b\<in>set ?all. getModule (bump_module b) ms \<noteq> None \<longrightarrow>
         (\<exists>s\<in>set out. summary_module s = bump_module b))"
  proof (rule allI, rule impI)
    fix out assume out: "summarizeVersionBumpsByModule ?vbs = Inr out"
    have keys: "set (map summary_module out) = bump_module ` set ?vbs"
      using summarize_InrD(2) [OF out] by simp
    have e1: "\<forall>s\<in>set out. getModule (summary_module s) ms \<noteq> None \<and>
         set (summary_commits s) =
           commit_with_tag ` {b \<in> set ?all. bump_module b = summary_module s}"
    proof
      fix s assume s: "s \<in> set out"
      from summarize_InrD(3) [OF out s]
      have eq: "s = summary_for ?vbs (summary_module s)" and k: "summary_module s \<in> bump_module ` set ?vbs"
        by blast+
      from k have r: "getModule (summary_module s) ms \<noteq> None" unfolding c by auto
      have "set (summary_commits s) = commit_with_tag ` set (bumps_for (summary_module s) ?vbs)"
        using eq summary_for_fields(2) [of ?vbs "summary_module s"] by simp
      also have "set (bumps_for (summary_module s) ?vbs) =
          {b \<in> set ?all. bump_module b = summary_module s}"
        unfolding set_bumps_for c using r by auto
      finally show "getModule (summary_module s) ms \<noteq> None \<and>
         set (summary_commits s) =
           commit_with_tag ` {b \<in> set ?all. bump_module b = summary_module s}"
        using r by simp
    qed
    have e2: "\<forall>b\<in>set ?all. getModule (bump_module b) ms \<noteq> None \<longrightarrow>
         (\<exists>s\<in>set out. summary_module s = bump_module b)"
    proof (rule ballI, rule impI)
      fix b assume "b \<in> set ?all" "getModule (bump_module b) ms \<noteq> None"
      then have "b \<in> set ?vbs" unfolding c by simp
      then have "bump_module b \<in> set (map summary_module out)" unfolding keys by simp
      then show "\<exists>s\<in>set out. summary_module s = bump_module b" by auto
    qed
    show "(\<forall>s\<in>set out. getModule (summary_module s) ms \<noteq> None \<and>
         set (summary_commits s) =
           commit_with_tag ` {b \<in> set ?all. bump_module b = summary_module s}) \<and>
      (\<forall>b\<in>set ?all. getModule (bump_module b) ms \<noteq> None \<longrightarrow>
         (\<exists>s\<in>set out. summary_module s = bump_module b))"
      by (rule conjI [OF e1 e2])
  qed
  show ?thesis by (rule conjI [OF a conjI [OF b conjI [OF c conjI [OF d e]]]])
qed

section \<open>The examples\<close>

lemma example_summarize: "summarizeVersionBumpsByModule example_bumps = Inr example_summaries"
  by code_simp

lemma example_no_inherited: "\<forall>b\<in>set example_bumps. bump_module b \<notin> set Object_prototype_keys"
  by code_simp

text \<open>
  On the example the aggregator returns the summaries of \<open>bar\<close> and \<open>foo\<close>, in that order,
  also for the proposals in reverse order.
\<close>

theorem aggregator_output_order_witness:
  "(\<exists>out. summarizeVersionBumpsByModule example_bumps = Inr out) \<and>
   summarizeVersionBumpsByModule example_bumps = Inr example_summaries \<and>
   map summary_module example_summaries = [''bar'', ''foo''] \<and>
   sorted_wrt (<) (map summary_module example_summaries) \<and>
   (\<exists>out'. summarizeVersionBumpsByModule (rev example_bumps) = Inr out' \<and>
           map summary_module out' = map summary_module example_summaries)"
proof -
  have p: "mset (rev example_bumps) = mset example_bumps" by simp
  have n: "map summary_module example_summaries = [''bar'', ''foo'']"
    by (simp add: example_summaries_def)
  from aggregator_output_order [of example_bumps] example_no_inherited
  have r: "\<exists>out. summarizeVersionBumpsByModule example_bumps = Inr out"
    by blast
  from aggregator_output_order [of example_bumps] example_summarize p
  have "sorted_wrt (<) (map summary_module example_summaries) \<and>
   (\<exists>out'. summarizeVersionBumpsByModule (rev example_bumps) = Inr out' \<and>
           map summary_module out' = map summary_module example_summaries)"
    by blast
  with r example_summarize n show ?thesis by blast
qed

text \<open>
  On the example in reverse order the severities are minor for \<open>bar\<close> and major for \<open>foo\<close>.
\<close>

theorem aggregated_severity_witness:
  "map_sum id (map (\<lambda>s. (summary_module s, summary_version s)))
     (summarizeVersionBumpsByModule (rev example_bumps)) = Inr [(''bar'', Minor), (''foo'', Major)]"
proof -
  have p: "mset (rev example_bumps) = mset example_bumps" by simp
  have e: "map_sum id (map (\<lambda>s. (summary_module s, summary_version s)))
     (summarizeVersionBumpsByModule example_bumps) = Inr [(''bar'', Minor), (''foo'', Major)]"
    by (simp add: example_summarize example_summaries_def)
  from aggregated_severity [of "rev example_bumps" example_bumps] p
  have "map_sum id (map (\<lambda>s. (summary_module s, summary_version s)))
      (summarizeVersionBumpsByModule (rev example_bumps))
      = map_sum id (map (\<lambda>s. (summary_module s, summary_version s)))
      (summarizeVersionBumpsByModule example_bumps)"
    by blast
  with e show ?thesis by simp
qed

lemma example_proposals:
  "filter (\<lambda>b. getModule (bump_module b) example_modules \<noteq> None)
     (all_proposals (\<lambda>c. defaultParseCommitMessage c example_modules) example_commits) = example_bumps"
  by code_simp

text \<open>
  On the example the proposals of the loop are the four that name \<open>foo\<close> or \<open>bar\<close>, and
  the proposal for \<open>baz\<close> is answered with the diagnostic.
\<close>

theorem unresolved_module_excluded_witness:
  "fst (collect_bumps (\<lambda>c. defaultParseCommitMessage c example_modules) example_modules
          example_commits ([], [])) = example_bumps \<and>
   UnknownRangeCommit \<lparr>subject = ''BREAKING(baz): c'', body = '''', hash = ''3''\<rparr> ''Unknown module: baz.''
     \<in> set (snd (collect_bumps (\<lambda>c. defaultParseCommitMessage c example_modules) example_modules
                   example_commits ([], [])))"
proof -
  let ?parse = "\<lambda>c. defaultParseCommitMessage c example_modules"
  let ?b = "\<lparr>bump_module = ''baz'', bump_tag = ''BREAKING'',
       bump_commit = \<lparr>subject = ''BREAKING(baz): c'', body = '''', hash = ''3''\<rparr>,
       bump_version = Version Major\<rparr>"
  have h1: "?b \<in> set (all_proposals ?parse example_commits)" by code_simp
  have h2: "getModule (bump_module ?b) example_modules = None" by code_simp
  from unresolved_module_excluded [of "''baz''" example_modules "\<lparr>name = ''@scope/foo'', version = ''1.2.3'', path = ''foo/deno.json''\<rparr>" ?parse example_commits] h1 h2
  have "fst (collect_bumps ?parse example_modules example_commits ([], [])) =
     filter (\<lambda>b. getModule (bump_module b) example_modules \<noteq> None)
       (all_proposals ?parse example_commits) \<and>
     UnknownRangeCommit (bump_commit ?b) (''Unknown module: '' @ bump_module ?b @ ''.'')
        \<in> set (snd (collect_bumps ?parse example_modules example_commits ([], [])))"
    by blast
  then show ?thesis unfolding example_proposals by simp
qed

end
